theory Spec2Isabelle
  imports Main "HOL-Library.Word"
begin

unbundle bit_operations_syntax

section \<open>Data model (Utilities.py)\<close>

text \<open>
  Python \<open>bytes\<close> are lists of 8-bit values; Python integers are unbounded and are
  modelled by \<open>int\<close>; offsets, sizes and indices never go negative and are \<open>nat\<close>.
  A slice \<open>xs[a:b]\<close> with \<open>0 \<le> a \<le> b\<close> keeps the elements at positions
  \<open>a, ..., b - 1\<close> that exist.
\<close>

type_synonym byte = "8 word"

definition py_slice :: "'a list \<Rightarrow> nat \<Rightarrow> nat \<Rightarrow> 'a list" where
  "py_slice xs a b = drop a (take b xs)"

text \<open>The dataclass \<open>GlobalBuffer\<close>: the two segments and the shared cursor.\<close>

record GlobalBuffer =
  command_data :: "byte list"
  text_data :: "byte list"
  command_data_offset :: nat
  text_data_offset :: nat

text \<open>The dataclass \<open>FileHeader\<close>.\<close>

record FileHeader =
  reserved1 :: nat
  command_block_size :: nat
  command_block_for_text_size :: nat
  string_table_size :: nat
  reserved2 :: nat

text \<open>
  The exceptions of the program. \<open>DisassemblerError\<close> is raised with two different
  messages (header too small; file smaller than the declared sizes, with the actual and
  the required size); \<open>TypeError\<close> and \<open>UnicodeDecodeError\<close> are Python's own;
  \<open>NormalOpcodeDisassemblerException\<close> is raised for an unknown opcode (with the opcode
  and its offset) and by \<open>process_all_commands\<close> around another exception;
  \<open>SysCallOpcodeDisassemblerError\<close> is raised by the checked byte and word reads.
\<close>

datatype error =
    DisassemblerError_TooSmall
  | DisassemblerError_Truncated nat nat
  | TypeError
  | UnicodeDecodeError
  | NormalOpcodeDisassemblerException_Unknown int nat
  | NormalOpcodeDisassemblerException_Commands error
  | SysCallOpcodeDisassemblerError_Byte
  | SysCallOpcodeDisassemblerError_Word
  | IndexError

text \<open>
  The outcome of a call: it returns a value, raises an exception, or does not return.
\<close>

datatype 'a result = Ok 'a | Raise error | Hang

text \<open>\<open>struct.unpack_from('<H', ...)\<close> and \<open>'<I'\<close> on a slice that is long enough.\<close>

definition read_uint16 :: "byte list \<Rightarrow> nat" where
  "read_uint16 bs = unat (bs ! 0) + 256 * unat (bs ! 1)"

definition read_uint32 :: "byte list \<Rightarrow> nat" where
  "read_uint32 bs =
     unat (bs ! 0) + 256 * unat (bs ! 1) + 65536 * unat (bs ! 2) + 16777216 * unat (bs ! 3)"

definition get_next_byte :: "GlobalBuffer \<Rightarrow> int option \<times> GlobalBuffer" where
  "get_next_byte gb =
     (if command_data_offset gb \<ge> length (command_data gb) then (None, gb)
      else (Some (uint (command_data gb ! command_data_offset gb)),
            gb\<lparr>command_data_offset := command_data_offset gb + 1\<rparr>))"

definition get_next_word :: "GlobalBuffer \<Rightarrow> int option \<times> GlobalBuffer" where
  "get_next_word gb =
     (if command_data_offset gb + 1 \<ge> length (command_data gb) then (None, gb)
      else (Some (int (read_uint16
                    (py_slice (command_data gb) (command_data_offset gb)
                       (command_data_offset gb + 2)))),
            gb\<lparr>command_data_offset := command_data_offset gb + 2\<rparr>))"

section \<open>Container parser (Disassemble.py)\<close>

definition parse_header :: "byte list \<Rightarrow> error + FileHeader" where
  "parse_header data =
     (if length data < 12 then Inl DisassemblerError_TooSmall
      else let header_data = py_slice data 0 12 in
        Inr \<lparr>reserved1 = read_uint32 (py_slice header_data 0 4),
             command_block_size = read_uint16 (py_slice header_data 4 6),
             command_block_for_text_size = read_uint16 (py_slice header_data 6 8),
             string_table_size = read_uint16 (py_slice header_data 8 10),
             reserved2 = read_uint16 (py_slice header_data 10 12)\<rparr>)"

text \<open>
  \<open>_setup_global_buffers\<close> assigns three attributes of the global buffer; when it
  raises, nothing has been assigned.
\<close>

definition setup_global_buffers ::
    "byte list \<Rightarrow> FileHeader \<Rightarrow> GlobalBuffer \<Rightarrow> error + GlobalBuffer" where
  "setup_global_buffers data header gb =
     (let offset = 12;
          required_size = 12 + command_block_size header
                            + command_block_for_text_size header
                            + string_table_size header
      in if length data < required_size
         then Inl (DisassemblerError_Truncated (length data) required_size)
         else
           let offset1 = offset + command_block_size header;
               command_end = offset1 + command_block_for_text_size header;
               text_end = command_end + string_table_size header
           in Inr (gb\<lparr>command_data := py_slice data offset1 command_end,
                      text_data := py_slice data command_end text_end,
                      command_data_offset := 0\<rparr>))"

section \<open>Expression VM (Fake_Stack.py)\<close>

text \<open>The module global \<open>word_table = [0] * 256\<close>; nothing in the program writes to it.\<close>

definition word_table :: "int list" where
  "word_table = replicate 256 0"

text \<open>
  \<open>read_next_byte\<close> returns the marker \<open>0xFF\<close> at the end of the data and leaves the
  cursor alone there; otherwise it is \<open>get_next_byte\<close>, whose own end-of-data branch
  tests the same condition and so cannot be taken after this guard.
\<close>

definition read_next_byte :: "GlobalBuffer \<Rightarrow> int \<times> GlobalBuffer" where
  "read_next_byte gb =
     (if command_data_offset gb \<ge> length (command_data gb) then (0xFF, gb)
      else (case get_next_byte gb of
              (Some b, gb') \<Rightarrow> (b, gb')
            | (None, gb') \<Rightarrow> (0xFF, gb')))"

definition create_mask :: "nat \<Rightarrow> int" where
  "create_mask bit_count = (if bit_count \<le> 0 then 0 else push_bit bit_count 1 - 1)"

text \<open>
  The two counting loops of \<open>extract_bit_field\<close>. The first one never ends on 0, the
  second one never ends on -1: not returning is the value \<open>None\<close>.
\<close>

partial_function (option) count_zeros_loop :: "nat \<Rightarrow> int \<Rightarrow> (nat \<times> int) option" where
  "count_zeros_loop leading_zeros temp_pattern =
     (if temp_pattern AND 1 = 0
      then count_zeros_loop (leading_zeros + 1) (drop_bit 1 temp_pattern)
      else Some (leading_zeros, temp_pattern))"

partial_function (option) count_ones_loop :: "nat \<Rightarrow> int \<Rightarrow> (nat \<times> int) option" where
  "count_ones_loop ones_count temp_pattern =
     (if temp_pattern AND 1 \<noteq> 0
      then count_ones_loop (ones_count + 1) (drop_bit 1 temp_pattern)
      else Some (ones_count, temp_pattern))"

text \<open>
  \<open>extract_bit_field\<close> reads the global word table; the model takes the table as its
  first argument.
\<close>

definition extract_bit_field :: "int list \<Rightarrow> nat \<Rightarrow> int \<Rightarrow> int option" where
  "extract_bit_field wt table_index bit_pattern =
     (if bit_pattern = 0 then Some bit_pattern
      else
        case count_zeros_loop 0 bit_pattern of
          None \<Rightarrow> None
        | Some (leading_zeros, temp_pattern) \<Rightarrow>
            (case count_ones_loop 0 temp_pattern of
               None \<Rightarrow> None
             | Some (ones_count, temp_pattern') \<Rightarrow>
                 let word_value = (if table_index < length wt then wt ! table_index else 0);
                     shifted_value = drop_bit leading_zeros word_value;
                     mask = create_mask ones_count
                 in Some (shifted_value AND mask)))"

text \<open>
  \<open>read_processed_value\<close>. When \<open>get_next_word\<close> returns \<open>None\<close> (fewer than two
  bytes left), both paths apply \<open>&\<close> to \<open>None\<close> and raise \<open>TypeError\<close>:
  \<open>extract_bit_field\<close> at \<open>temp_pattern & 1\<close>, the other path at
  \<open>bit_pattern & 0xFFFF\<close>.
\<close>

definition read_processed_value :: "GlobalBuffer \<Rightarrow> int result \<times> GlobalBuffer" where
  "read_processed_value gb =
     (case read_next_byte gb of (table_index, gb1) \<Rightarrow>
      case get_next_word gb1 of (bit_pattern, gb2) \<Rightarrow>
        (case bit_pattern of
           None \<Rightarrow> (Raise TypeError, gb2)
         | Some p \<Rightarrow>
             if table_index \<noteq> 0xFF
             then (case extract_bit_field word_table (nat table_index) p of
                     None \<Rightarrow> (Hang, gb2)
                   | Some v \<Rightarrow> (Ok (v AND 0xFFFF), gb2))
             else (Ok (p AND 0xFFFF), gb2)))"

text \<open>
  The two stacks are Python lists: \<open>append\<close> adds at the end, \<open>pop()\<close> removes the
  last element, \<open>xs[-1]\<close> is the last element and \<open>xs[0]\<close> the first one pushed.
\<close>

definition set_top :: "int list \<Rightarrow> int \<Rightarrow> int list" where
  "set_top xs v = xs[length xs - 1 := v]"

text \<open>
  The shape shared by every two-operand operator:
  \<open>val = value_stack.pop(); flag_stack[-1] = f(flag_stack[-1], val); flag_stack.pop()\<close>,
  under the guard that both stacks are non-empty.
\<close>

definition binary_op ::
    "(int \<Rightarrow> int \<Rightarrow> int) \<Rightarrow> int list \<Rightarrow> int list \<Rightarrow> int list \<times> int list" where
  "binary_op f value_stack flag_stack =
     (if length value_stack \<ge> 1 \<and> length flag_stack \<ge> 1 then
        let val = last value_stack;
            value_stack' = butlast value_stack;
            flag_stack' = set_top flag_stack (f (last flag_stack) val)
        in (value_stack', butlast flag_stack')
      else (value_stack, flag_stack))"

definition op_add :: "int \<Rightarrow> int \<Rightarrow> int" where
  "op_add acc val = (acc + val) AND 0xFFFFFFFF"

definition op_sub :: "int \<Rightarrow> int \<Rightarrow> int" where
  "op_sub acc val = (acc - val) AND 0xFFFFFFFF"

definition op_mul :: "int \<Rightarrow> int \<Rightarrow> int" where
  "op_mul acc val = (acc * val) AND 0xFFFFFFFF"

definition op_div :: "int \<Rightarrow> int \<Rightarrow> int" where
  "op_div acc divisor = (if divisor \<noteq> 0 then acc div divisor else 0)"

definition op_mod :: "int \<Rightarrow> int \<Rightarrow> int" where
  "op_mod acc divisor = (if divisor \<noteq> 0 then acc mod divisor else 0)"

definition logical_not_12 :: "int list \<Rightarrow> int list \<Rightarrow> int list \<times> int list" where
  "logical_not_12 value_stack flag_stack =
     (if length flag_stack \<ge> 1 then
        let flag_stack1 =
              (if last flag_stack \<noteq> 0 then set_top flag_stack 1
               else if length value_stack \<ge> 1 \<and> last value_stack \<noteq> 0
                    then set_top flag_stack 1
                    else set_top flag_stack 0);
            value_stack1 = (if length value_stack \<ge> 1 then butlast value_stack else value_stack);
            flag_stack2 = (if length flag_stack1 \<ge> 2 then butlast flag_stack1 else flag_stack1)
        in (value_stack1, flag_stack2)
      else (value_stack, flag_stack))"

text \<open>Phase 2 of the interpreter: the effect of one operator code on the two stacks.\<close>

definition apply_operation :: "int \<Rightarrow> int list \<Rightarrow> int list \<Rightarrow> int list \<times> int list" where
  "apply_operation operation value_stack flag_stack =
     (if operation > 11 then
        let op_type = operation - 12 in
        if op_type = 0 then logical_not_12 value_stack flag_stack
        else if op_type = 8 then binary_op op_add value_stack flag_stack
        else if op_type = 9 then binary_op op_sub value_stack flag_stack
        else if op_type = 10 then binary_op op_mul value_stack flag_stack
        else if op_type = 11 then binary_op op_div value_stack flag_stack
        else if op_type = 12 then binary_op op_mod value_stack flag_stack
        else (value_stack, flag_stack)
      else
        if operation = 11 then
          (if length flag_stack \<ge> 1
           then (value_stack, set_top flag_stack (if last flag_stack = 0 then 1 else 0))
           else (value_stack, flag_stack))
        else if operation = 0 then
          binary_op (\<lambda>acc val. if acc > val then 1 else 0) value_stack flag_stack
        else if operation = 1 then
          binary_op (\<lambda>acc val. if acc \<le> val then 1 else 0) value_stack flag_stack
        else if operation = 2 then
          binary_op (\<lambda>acc val. if acc \<noteq> val then 1 else 0) value_stack flag_stack
        else if operation = 3 then
          binary_op (\<lambda>acc val. if val = acc then 1 else 0) value_stack flag_stack
        else if operation = 4 then
          binary_op (\<lambda>acc val. if acc \<ge> val then 1 else 0) value_stack flag_stack
        else if operation = 5 then
          binary_op (\<lambda>acc val. if acc < val then 1 else 0) value_stack flag_stack
        else if operation = 10 then
          (if length value_stack \<ge> 1
           then (set_top value_stack (if last value_stack = 0 then 1 else 0), flag_stack)
           else (value_stack, flag_stack))
        else (value_stack, flag_stack))"

text \<open>The value returned at the terminator: \<open>value_stack[0] if value_stack else 0\<close>.\<close>

definition vm_return_value :: "int list \<Rightarrow> int" where
  "vm_return_value value_stack = (case value_stack of [] \<Rightarrow> 0 | v # _ \<Rightarrow> v)"

lemma read_next_byte_cases:
  "read_next_byte gb =
     (if command_data_offset gb \<ge> length (command_data gb) then (0xFF, gb)
      else (uint (command_data gb ! command_data_offset gb),
            gb\<lparr>command_data_offset := command_data_offset gb + 1\<rparr>))"
  by (simp add: read_next_byte_def get_next_byte_def)

lemma read_next_byte_data [simp]:
  "command_data (snd (read_next_byte gb)) = command_data gb"
  by (simp add: read_next_byte_cases)

lemma read_next_byte_offset:
  "command_data_offset gb \<le> command_data_offset (snd (read_next_byte gb))
   \<and> command_data_offset (snd (read_next_byte gb)) \<le> command_data_offset gb + 1"
  by (simp add: read_next_byte_cases)

lemma read_next_byte_consumes:
  "fst (read_next_byte gb) \<noteq> 0xFF \<Longrightarrow>
     command_data_offset (snd (read_next_byte gb)) = command_data_offset gb + 1
     \<and> command_data_offset gb < length (command_data gb)"
  by (simp add: read_next_byte_cases split: if_splits)

lemma get_next_word_data [simp]:
  "command_data (snd (get_next_word gb)) = command_data gb"
  by (simp add: get_next_word_def)

lemma get_next_word_offset:
  "command_data_offset gb \<le> command_data_offset (snd (get_next_word gb))"
  by (simp add: get_next_word_def)

lemma read_processed_value_snd:
  "snd (read_processed_value gb) = snd (get_next_word (snd (read_next_byte gb)))"
  by (simp add: read_processed_value_def split: prod.splits option.splits)

lemma read_processed_value_data [simp]:
  "command_data (snd (read_processed_value gb)) = command_data gb"
  by (simp add: read_processed_value_snd)

lemma read_processed_value_offset:
  "command_data_offset gb \<le> command_data_offset (snd (read_processed_value gb))"
proof -
  have "command_data_offset gb \<le> command_data_offset (snd (read_next_byte gb))"
    using read_next_byte_offset [of gb] by simp
  also have "\<dots> \<le> command_data_offset (snd (get_next_word (snd (read_next_byte gb))))"
    by (rule get_next_word_offset)
  finally show ?thesis by (simp add: read_processed_value_snd)
qed

lemma read_next_byte_advances:
  assumes "(x, y) = read_next_byte gb" and "x \<noteq> 255"
  shows "command_data y = command_data gb
       \<and> command_data_offset y = command_data_offset gb + 1
       \<and> command_data_offset gb < length (command_data gb)"
proof -
  from assms(1) have "fst (read_next_byte gb) = x" "snd (read_next_byte gb) = y"
    by (simp_all flip: assms(1))
  with assms(2) show ?thesis
    using read_next_byte_consumes [of gb] read_next_byte_data [of gb] by simp
qed

lemma read_next_byte_monotone:
  assumes "(x, y) = read_next_byte gb"
  shows "command_data y = command_data gb \<and> command_data_offset gb \<le> command_data_offset y"
proof -
  from assms have "snd (read_next_byte gb) = y" by (simp flip: assms)
  then show ?thesis
    using read_next_byte_offset [of gb] read_next_byte_data [of gb] by simp
qed

lemma read_processed_value_monotone:
  assumes "(x, y) = read_processed_value gb"
  shows "command_data y = command_data gb \<and> command_data_offset gb \<le> command_data_offset y"
proof -
  from assms have "snd (read_processed_value gb) = y" by (simp flip: assms)
  then show ?thesis
    using read_processed_value_offset [of gb] read_processed_value_data [of gb] by simp
qed

text \<open>
  The interpreter loop of \<open>execute_vm_code\<close>. The inner data-collection loop and the
  outer loop are one recursion: every pass reads a byte; \<open>0xFF\<close> returns, a non-zero
  byte leads to the operator phase and back to the top, zero pushes an operand (the value
  on \<open>value_stack\<close>, 0 on \<open>flag_stack\<close>) and goes back to the top.
\<close>

function vm_loop :: "GlobalBuffer \<Rightarrow> int list \<Rightarrow> int list \<Rightarrow> int result \<times> GlobalBuffer" where
  "vm_loop gb value_stack flag_stack =
     (case read_next_byte gb of (next_byte, gb1) \<Rightarrow>
        if next_byte = 255 then (Ok (vm_return_value value_stack), gb1)
        else if next_byte \<noteq> 0 then
          (case read_next_byte gb1 of (operation, gb2) \<Rightarrow>
           case apply_operation operation value_stack flag_stack of
             (value_stack', flag_stack') \<Rightarrow> vm_loop gb2 value_stack' flag_stack')
        else
          (case read_processed_value gb1 of
             (Ok v, gb2) \<Rightarrow> vm_loop gb2 (value_stack @ [v]) (flag_stack @ [0])
           | (Raise e, gb2) \<Rightarrow> (Raise e, gb2)
           | (Hang, gb2) \<Rightarrow> (Hang, gb2)))"
  by pat_completeness auto
termination
proof (relation "measure (\<lambda>(gb, vs, fs). length (command_data gb) - command_data_offset gb)")
  show "wf (measure (\<lambda>(gb, vs, fs). length (command_data gb) - command_data_offset gb))"
    by simp
next
  fix gb value_stack flag_stack x y xa ya xb yb
  assume "(x, y) = read_next_byte gb" "x \<noteq> 255" "(xa, ya) = read_next_byte y"
  then have "length (command_data ya) - command_data_offset ya
               < length (command_data gb) - command_data_offset gb"
    using read_next_byte_advances [of x y gb] read_next_byte_monotone [of xa ya y] by auto
  then show "((ya, xb, yb), gb, value_stack, flag_stack)
      \<in> measure (\<lambda>(gb, vs, fs). length (command_data gb) - command_data_offset gb)"
    by simp
next
  fix gb value_stack flag_stack x y xa ya x1
  assume "(x, y) = read_next_byte gb" "x \<noteq> 255" "(xa, ya) = read_processed_value y"
  then have "length (command_data ya) - command_data_offset ya
               < length (command_data gb) - command_data_offset gb"
    using read_next_byte_advances [of x y gb] read_processed_value_monotone [of xa ya y] by auto
  then show "((ya, value_stack @ [x1], flag_stack @ [0]), gb, value_stack, flag_stack)
      \<in> measure (\<lambda>(gb, vs, fs). length (command_data gb) - command_data_offset gb)"
    by simp
qed

declare vm_loop.simps [simp del]

definition execute_vm_code :: "GlobalBuffer \<Rightarrow> int result \<times> GlobalBuffer" where
  "execute_vm_code gb = vm_loop gb [] []"

text \<open>
  A pattern has the field \<open>(shift, width)\<close> when its \<open>shift\<close> lowest bits are zero, the
  next \<open>width\<close> bits are one, the bit after them is zero, and \<open>width\<close> is positive:
  \<open>shift\<close> is the number of trailing zero bits and \<open>width\<close> the length of the run of
  one-bits above them.
\<close>

definition is_field :: "int \<Rightarrow> nat \<Rightarrow> nat \<Rightarrow> bool" where
  "is_field p shift width =
     (list_all (\<lambda>k. \<not> bit p k) [0..<shift]
      \<and> list_all (\<lambda>k. bit p (shift + k)) [0..<width]
      \<and> \<not> bit p (shift + width) \<and> 0 < width)"

section \<open>String decoder (Utilities.py)\<close>

text \<open>
  A decoded Python string is the list of its code points. The two codecs that
  \<open>read_C_string\<close> calls (\<open>shift_jis\<close>, then \<open>cp932\<close>) belong to Python's library
  and are parameters of the model: a codec returns \<open>None\<close> where Python raises
  \<open>UnicodeDecodeError\<close>.
\<close>

type_synonym pystr = "nat list"

record codecs =
  shift_jis :: "byte list \<Rightarrow> pystr option"
  cp932 :: "byte list \<Rightarrow> pystr option"

text \<open>\<open>s.strip('\x00')\<close>: the NUL characters at both ends are removed.\<close>

definition strip_nul :: "pystr \<Rightarrow> pystr" where
  "strip_nul s = rev (dropWhile (\<lambda>c. c = 0) (rev (dropWhile (\<lambda>c. c = 0) s)))"

text \<open>
  The reading loop of \<open>read_C_string\<close>; it returns the final \<open>current_offset\<close>, the
  bytes accumulated in \<open>result\<close> and the flag \<open>null_terminator_found\<close>.
\<close>

function read_C_string_loop :: "byte list \<Rightarrow> nat \<Rightarrow> byte list \<Rightarrow> nat \<times> byte list \<times> bool" where
  "read_C_string_loop data current_offset result =
     (if current_offset < length data then
        let current_byte = data ! current_offset in
        if current_byte = 0 then
          (if current_offset + 1 < length data \<and> data ! (current_offset + 1) = 0
           then (current_offset + 2, result, True)
           else (current_offset + 1, result, True))
        else
          let result' = result @ [current_byte];
              current_offset' = current_offset + 1
          in if length result' > 5000 then (current_offset', result', False)
             else read_C_string_loop data current_offset' result'
      else (current_offset, result, False))"
  by pat_completeness auto
termination
  by (relation "measure (\<lambda>(data, current_offset, result). length data - current_offset)") auto

declare read_C_string_loop.simps [simp del]

definition read_C_string :: "codecs \<Rightarrow> byte list \<Rightarrow> nat \<Rightarrow> (nat \<times> pystr) result" where
  "read_C_string cs data txt_offset =
     (case read_C_string_loop data txt_offset [] of
        (current_offset, result, null_terminator_found) \<Rightarrow>
          (case shift_jis cs result of
             Some s \<Rightarrow> Ok (current_offset - txt_offset, strip_nul s)
           | None \<Rightarrow>
               (case cp932 cs result of
                  Some s \<Rightarrow> Ok (current_offset - txt_offset, strip_nul s)
                | None \<Rightarrow> Raise UnicodeDecodeError)))"

section \<open>Normal opcode dispatcher (NormalOpcodeTable.py)\<close>

text \<open>The class \<open>NameCache\<close>: the dictionary, the last saved name and its offset.\<close>

record NameCache =
  cache :: "nat \<rightharpoonup> pystr"
  last_saved_name :: pystr
  last_saved_name_offset :: "nat option"

text \<open>
  What the program prints. Every \<open>debug\<close> flag of the program is \<open>True\<close>
  (\<open>NormalOpcodeDisassembler()\<close> and \<open>NameCache\<close> by default,
  \<open>SysCallOpcodeDisassembler\<close> by assignment), so every print guarded by one is made.
  The prints that report a resolved string, an unknown or unhandled opcode, a caught
  exception and the cases of a switch have events of their own; every other print is an
  \<open>Ev_Info\<close> or \<open>Ev_Text\<close> with its label and the numbers or the string it shows.
\<close>

datatype resolution = Decoded | CachedFromOffset | CachedLast | NoCacheAvailable

datatype event =
    Ev_Info string "int list"
  | Ev_Text string pystr
  | Ev_String nat pystr resolution
  | Ev_CachedName pystr nat
  | Ev_InvalidTextOffset nat
  | Ev_UnexpectedEOF nat
  | Ev_UnknownOpcode int nat
  | Ev_UnhandledOpcode int nat
  | Ev_Error string error
  | Ev_Case nat int int
  | Ev_Match int int int
  | Ev_NoMatch int int

text \<open>
  The state of a run: the global buffer, the name cache of the normal dispatcher and
  the output printed so far.
\<close>

record dstate =
  gbuf :: GlobalBuffer
  names :: NameCache
  out :: "event list"

type_synonym 'a m = "dstate \<Rightarrow> 'a result \<times> dstate"

definition ret :: "'a \<Rightarrow> 'a m" where
  "ret x st = (Ok x, st)"

definition raise :: "error \<Rightarrow> 'a m" where
  "raise e st = (Raise e, st)"

text \<open>Sequencing: an exception or a call that does not return ends what follows.\<close>

definition seq :: "'a m \<Rightarrow> ('a \<Rightarrow> 'b m) \<Rightarrow> 'b m" where
  "seq f g st =
     (case f st of
        (Ok x, st') \<Rightarrow> g x st'
      | (Raise e, st') \<Rightarrow> (Raise e, st')
      | (Hang, st') \<Rightarrow> (Hang, st'))"

text \<open>\<open>try: f  except Exception as e: h(e)\<close>.\<close>

definition catch :: "'a m \<Rightarrow> (error \<Rightarrow> 'a m) \<Rightarrow> 'a m" where
  "catch f h st =
     (case f st of
        (Ok x, st') \<Rightarrow> (Ok x, st')
      | (Raise e, st') \<Rightarrow> h e st'
      | (Hang, st') \<Rightarrow> (Hang, st'))"

definition emit :: "event \<Rightarrow> unit m" where
  "emit e st = (Ok (), st\<lparr>out := out st @ [e]\<rparr>)"

definition on_buffer :: "(GlobalBuffer \<Rightarrow> 'a result \<times> GlobalBuffer) \<Rightarrow> 'a m" where
  "on_buffer f st = (case f (gbuf st) of (r, gb') \<Rightarrow> (r, st\<lparr>gbuf := gb'\<rparr>))"

definition next_word :: "int option m" where
  "next_word = on_buffer (\<lambda>gb. case get_next_word gb of (w, gb') \<Rightarrow> (Ok w, gb'))"

text \<open>\<open>NameCache.get_name\<close>, \<open>cache_name\<close>, \<open>get_last_saved_name\<close>.\<close>

definition get_name :: "NameCache \<Rightarrow> nat \<Rightarrow> pystr option" where
  "get_name nc offset = cache nc offset"

definition is_japanese_name_bracket :: "pystr \<Rightarrow> bool" where
  "is_japanese_name_bracket s =
     (s \<noteq> [] \<and> hd s = 0x3010 \<and> last s = 0x3011)"

definition cache_name :: "nat \<Rightarrow> pystr \<Rightarrow> unit m" where
  "cache_name offset name st =
     (if is_japanese_name_bracket name
      then emit (Ev_CachedName name offset)
             (st\<lparr>names := (names st)\<lparr>cache := (cache (names st))(offset \<mapsto> name),
                                      last_saved_name := name,
                                      last_saved_name_offset := Some offset\<rparr>\<rparr>)
      else (Ok (), st))"

definition get_last_saved_name :: "NameCache \<Rightarrow> pystr \<times> nat option" where
  "get_last_saved_name nc = (last_saved_name nc, last_saved_name_offset nc)"

text \<open>The class \<open>VMExecutor\<close>.\<close>

definition execute_single :: "int m" where
  "execute_single = on_buffer execute_vm_code"

fun execute_multiple :: "nat \<Rightarrow> int list m" where
  "execute_multiple 0 = ret []"
| "execute_multiple (Suc n) =
     seq execute_single (\<lambda>r. seq (execute_multiple n) (\<lambda>rs. ret (r # rs)))"

text \<open>
  \<open>read_C_string(GlobalBuffer.text_data, offset)\<close> where \<open>offset\<close> is what
  \<open>get_next_word\<close> returned: on \<open>None\<close> the comparison \<open>current_offset < len(data)\<close>
  raises \<open>TypeError\<close>.
\<close>

definition read_text :: "codecs \<Rightarrow> int option \<Rightarrow> (nat \<times> pystr) m" where
  "read_text cs offset st =
     (case offset of
        None \<Rightarrow> (Raise TypeError, st)
      | Some txt_offset \<Rightarrow> (read_C_string cs (text_data (gbuf st)) (nat txt_offset), st))"

definition handle_simple_execution :: "string \<Rightarrow> nat \<Rightarrow> unit m" where
  "handle_simple_execution opcode_name current_offset =
     emit (Ev_Info opcode_name [int current_offset])"

definition handle_simple_vm_execution :: "string \<Rightarrow> nat \<Rightarrow> unit m" where
  "handle_simple_vm_execution opcode_name current_offset =
     seq execute_single (\<lambda>r. emit (Ev_Info opcode_name [int current_offset, r]))"

definition handle_double_vm_execution :: "string \<Rightarrow> nat \<Rightarrow> unit m" where
  "handle_double_vm_execution opcode_name current_offset =
     seq (execute_multiple 2) (\<lambda>rs. emit (Ev_Info opcode_name (int current_offset # rs)))"

text \<open>
  \<open>_handle_string_opcode\<close>. The opcode is read again at \<open>current_offset\<close>;
  \<open>get_string_flag\<close> is 1 for opcode \<open>0x01\<close> and 0 for opcode \<open>0x00\<close>. The event
  \<open>Ev_String\<close> carries the text offset, \<open>actual_string\<close> and which branch produced it.
\<close>

definition handle_string_opcode :: "codecs \<Rightarrow> nat \<Rightarrow> unit m" where
  "handle_string_opcode cs current_offset st =
     (if current_offset \<ge> length (command_data (gbuf st)) then (Raise IndexError, st)
      else
        let opcode = uint (command_data (gbuf st) ! current_offset);
            v252 = (if opcode = 0 then 1 else 0 :: int)
        in case next_word st of
             (Raise e, st1) \<Rightarrow> (Raise e, st1)
           | (Hang, st1) \<Rightarrow> (Hang, st1)
           | (Ok text_offset, st1) \<Rightarrow>
               let get_string_flag = (if v252 = 0 then 1 else 0 :: int) in
               (case text_offset of
                  None \<Rightarrow> emit (Ev_UnexpectedEOF current_offset) st1
                | Some w \<Rightarrow>
                    let text_offset = nat w in
                    if text_offset < length (text_data (gbuf st1)) then
                      (case read_C_string cs (text_data (gbuf st1)) text_offset of
                         Raise e \<Rightarrow> (Raise e, st1)
                       | Hang \<Rightarrow> (Hang, st1)
                       | Ok (length', string') \<Rightarrow>
                           if length' = 0 \<and> get_string_flag = 1 then
                             (case get_name (names st1) text_offset of
                                Some cached_name \<Rightarrow>
                                  if cached_name \<noteq> []
                                  then emit (Ev_String text_offset cached_name CachedFromOffset) st1
                                  else
                                    (case get_last_saved_name (names st1) of
                                       (last_name, last_offset) \<Rightarrow>
                                         if last_name \<noteq> []
                                         then emit (Ev_String text_offset last_name CachedLast) st1
                                         else emit (Ev_String text_offset [] NoCacheAvailable) st1)
                              | None \<Rightarrow>
                                  (case get_last_saved_name (names st1) of
                                     (last_name, last_offset) \<Rightarrow>
                                       if last_name \<noteq> []
                                       then emit (Ev_String text_offset last_name CachedLast) st1
                                       else emit (Ev_String text_offset [] NoCacheAvailable) st1))
                           else
                             seq (emit (Ev_String text_offset string' Decoded))
                                 (\<lambda>_. cache_name text_offset string') st1)
                    else emit (Ev_InvalidTextOffset text_offset) st1))"

definition handle_newline :: "nat \<Rightarrow> unit m" where
  "handle_newline current_offset = emit (Ev_Info ''Newline'' [int current_offset])"

definition handle_play_mpg_video :: "codecs \<Rightarrow> nat \<Rightarrow> unit m" where
  "handle_play_mpg_video cs current_offset =
     seq next_word (\<lambda>video_name_string_offset.
     seq (read_text cs video_name_string_offset) (\<lambda>(video_name_length, video_name_string).
     emit (Ev_Text ''Playing MPG video'' video_name_string)))"

definition handle_scenario_vm :: "codecs \<Rightarrow> nat \<Rightarrow> unit m" where
  "handle_scenario_vm cs current_offset =
     seq next_word (\<lambda>scenario_txt_start_offset.
     seq (read_text cs scenario_txt_start_offset) (\<lambda>(length', scenario_string).
     seq (if length' = 0 then emit (Ev_Info ''Scenario string empty'' [int current_offset])
          else emit (Ev_Text ''Scenario string'' scenario_string)) (\<lambda>_.
     seq execute_single (\<lambda>r.
     emit (Ev_Info ''Scenario VM result, text start offset''
             [r, case scenario_txt_start_offset of Some w \<Rightarrow> w | None \<Rightarrow> - 1])))))"

definition handle_get_choice_hints :: "codecs \<Rightarrow> nat \<Rightarrow> unit m" where
  "handle_get_choice_hints cs current_offset =
     seq next_word (\<lambda>text_offset.
     seq (read_text cs text_offset) (\<lambda>(length', hint_string).
     emit (Ev_Text ''OPCODE_GET_CHOICE_HINTS'' hint_string)))"

definition handle_unk_0x09 :: "codecs \<Rightarrow> nat \<Rightarrow> unit m" where
  "handle_unk_0x09 cs current_offset =
     seq (execute_multiple 4) (\<lambda>results.
     seq next_word (\<lambda>scn_txt_offset.
     seq (read_text cs scn_txt_offset) (\<lambda>(length', string').
     seq (emit (Ev_Info ''0x09'' (int current_offset # results))) (\<lambda>_.
     emit (Ev_Text ''Scenario Text'' string')))))"

definition handle_show_images :: "nat \<Rightarrow> unit m" where
  "handle_show_images current_offset =
     seq execute_single (\<lambda>image_no. emit (Ev_Info ''show image'' [int current_offset, image_no]))"

definition handle_show_standstills :: "nat \<Rightarrow> unit m" where
  "handle_show_standstills current_offset =
     seq (execute_multiple 3) (\<lambda>results.
     emit (Ev_Info ''OPCODE_SHOW_STANDSTILLS 0x1E'' (int current_offset # results)))"

definition handle_unk_0x46 :: "nat \<Rightarrow> unit m" where
  "handle_unk_0x46 current_offset =
     seq (execute_multiple 3) (\<lambda>results. emit (Ev_Info ''0x46'' (int current_offset # results)))"

definition handle_unk_0xAC :: "nat \<Rightarrow> unit m" where
  "handle_unk_0xAC current_offset =
     seq (execute_multiple 4) (\<lambda>results. emit (Ev_Info ''0xAC'' (int current_offset # results)))"

definition handle_unk_0xA6 :: "nat \<Rightarrow> unit m" where
  "handle_unk_0xA6 current_offset = emit (Ev_Info ''0xA6'' [int current_offset])"

definition handle_unk_0xB4 :: "nat \<Rightarrow> unit m" where
  "handle_unk_0xB4 current_offset =
     seq (execute_multiple 9) (\<lambda>results. emit (Ev_Info ''0xB4'' (int current_offset # results)))"

definition handle_unk_0x6C :: "codecs \<Rightarrow> nat \<Rightarrow> unit m" where
  "handle_unk_0x6C cs current_offset =
     seq (execute_multiple 4) (\<lambda>results.
     seq next_word (\<lambda>string_offset.
     seq (read_text cs string_offset) (\<lambda>(length', string').
     seq (emit (Ev_Info ''0x6C'' (int current_offset # results))) (\<lambda>_.
     emit (Ev_Text ''String'' string')))))"

definition handle_unk_0xF1 :: "nat \<Rightarrow> unit m" where
  "handle_unk_0xF1 current_offset =
     seq (execute_multiple 10) (\<lambda>results. emit (Ev_Info ''0xF1'' (int current_offset # results)))"

text \<open>\<open>_handle_unknown_opcode\<close> prints the opcode and the offset, then raises.\<close>

definition handle_unknown_opcode :: "int \<Rightarrow> nat \<Rightarrow> unit m" where
  "handle_unknown_opcode opcode current_offset =
     seq (emit (Ev_UnknownOpcode opcode current_offset))
         (\<lambda>_. raise (NormalOpcodeDisassemblerException_Unknown opcode current_offset))"

text \<open>
  The handler table of \<open>_build_opcode_handlers\<close>, in the order of the dictionary
  display. A key written twice (\<open>0xB3\<close>) keeps the value written last, which is what
  \<open>map_of\<close> finds first in the reversed list.
\<close>

datatype handler =
    H_string_opcode | H_newline | H_simple_vm string | H_simple string | H_double_vm string
  | H_unk_0x09 | H_show_images | H_show_standstills | H_unk_0xA6 | H_unk_0xB4 | H_unk_0x46
  | H_unk_0x6C | H_scenario_vm | H_play_mpg_video | H_unk_0xAC | H_get_choice_hints
  | H_unk_0xF1

definition opcode_handler_entries :: "(int \<times> handler) list" where
  "opcode_handler_entries =
     [
      (0x00, H_string_opcode),
      (0x01, H_string_opcode),
      (0x04, H_newline),
      (0x02, H_simple_vm ''0x02''),
      (0x05, H_simple ''0x05''),
      (0x09, H_unk_0x09),
      (0x0A, H_double_vm ''0x0A''),
      (0x0B, H_simple ''0x0B''),
      (0x10, H_simple_vm ''0x10''),
      (0x12, H_simple_vm ''0x12''),
      (0x13, H_simple ''0x13''),
      (0x15, H_show_images),
      (0x17, H_simple_vm ''0x17''),
      (0x18, H_simple_vm ''0x18''),
      (0x1E, H_show_standstills),
      (0x1F, H_double_vm ''0x1F''),
      (0x28, H_double_vm ''0x28''),
      (0x30, H_double_vm ''0x30''),
      (0x32, H_simple_vm ''0x32''),
      (0x33, H_simple_vm ''0x33''),
      (0x34, H_simple_vm ''0x34''),
      (0x35, H_simple_vm ''0x35''),
      (0x38, H_double_vm ''0x38''),
      (0x3A, H_double_vm ''0x3A''),
      (0x3D, H_simple_vm ''0x3D''),
      (0x61, H_simple_vm ''0x61''),
      (0x41, H_simple_vm ''0x41''),
      (0x4F, H_simple_vm ''0x4F''),
      (0x71, H_simple_vm ''0x71''),
      (0x72, H_simple_vm ''0x72''),
      (0x79, H_simple_vm ''0x79''),
      (0xA2, H_simple_vm ''0xA2''),
      (0xA6, H_unk_0xA6),
      (0xA8, H_simple ''0xA8''),
      (0xAD, H_simple_vm ''0xAD''),
      (0xB3, H_simple_vm ''0xB3''),
      (0xB4, H_unk_0xB4),
      (0xE3, H_simple_vm ''0xE3''),
      (0xEE, H_simple_vm ''0xEE''),
      (0xF2, H_simple_vm ''0xF2''),
      (0xF6, H_simple_vm ''0xF6''),
      (0xF7, H_simple_vm ''0xF7''),
      (0xF8, H_simple_vm ''0xF8''),
      (0x44, H_double_vm ''PLAY_WAV''),
      (0x45, H_simple_vm ''0x45''),
      (0x46, H_unk_0x46),
      (0x47, H_simple_vm ''0x47''),
      (0x48, H_double_vm ''PLAY_VOICELINES''),
      (0x4E, H_simple_vm ''0x4E''),
      (0x58, H_simple_vm ''0x58''),
      (0x5B, H_simple_vm ''0x5B''),
      (0x5D, H_simple_vm ''0x5D''),
      (0x5E, H_simple_vm ''0x5E''),
      (0x60, H_double_vm ''0x60''),
      (0x66, H_double_vm ''0x66''),
      (0x6C, H_unk_0x6C),
      (0x6E, H_scenario_vm),
      (0x76, H_simple ''0x76''),
      (0x7A, H_double_vm ''0x7A''),
      (0x78, H_simple_vm ''SET_DELAY''),
      (0x82, H_simple_vm ''0x82''),
      (0x8A, H_play_mpg_video),
      (0x8B, H_simple_vm ''0x8B''),
      (0x8C, H_simple_vm ''0x8C''),
      (0x8D, H_simple_vm ''0x8D''),
      (0x8E, H_simple_vm ''0x8E''),
      (0x93, H_simple ''0x93''),
      (0x95, H_double_vm ''0x95''),
      (0x96, H_simple_vm ''0x96''),
      (0x98, H_double_vm ''0x98''),
      (0xA9, H_simple_vm ''0xA9''),
      (0xAC, H_unk_0xAC),
      (0xB3, H_simple ''0xB3''),
      (0xC6, H_double_vm ''0xC6''),
      (0xCA, H_simple ''0xCA''),
      (0xD6, H_simple_vm ''0xD6''),
      (0xD7, H_get_choice_hints),
      (0xD8, H_simple ''0xD8''),
      (0xE2, H_simple ''0xE2''),
      (0xF0, H_simple_vm ''0xF0''),
      (0xF1, H_unk_0xF1),
      (0xFC, H_simple_vm ''0xFC''),
      (0xFF, H_simple ''0xFF'')
     ]"

definition opcode_handlers :: "int \<Rightarrow> handler option" where
  "opcode_handlers = map_of (rev opcode_handler_entries)"

definition run_handler :: "codecs \<Rightarrow> handler \<Rightarrow> nat \<Rightarrow> unit m" where
  "run_handler cs h current_offset =
     (case h of
        H_string_opcode \<Rightarrow> handle_string_opcode cs current_offset
      | H_newline \<Rightarrow> handle_newline current_offset
      | H_simple_vm opcode_name \<Rightarrow> handle_simple_vm_execution opcode_name current_offset
      | H_simple opcode_name \<Rightarrow> handle_simple_execution opcode_name current_offset
      | H_double_vm opcode_name \<Rightarrow> handle_double_vm_execution opcode_name current_offset
      | H_unk_0x09 \<Rightarrow> handle_unk_0x09 cs current_offset
      | H_show_images \<Rightarrow> handle_show_images current_offset
      | H_show_standstills \<Rightarrow> handle_show_standstills current_offset
      | H_unk_0xA6 \<Rightarrow> handle_unk_0xA6 current_offset
      | H_unk_0xB4 \<Rightarrow> handle_unk_0xB4 current_offset
      | H_unk_0x46 \<Rightarrow> handle_unk_0x46 current_offset
      | H_unk_0x6C \<Rightarrow> handle_unk_0x6C cs current_offset
      | H_scenario_vm \<Rightarrow> handle_scenario_vm cs current_offset
      | H_play_mpg_video \<Rightarrow> handle_play_mpg_video cs current_offset
      | H_unk_0xAC \<Rightarrow> handle_unk_0xAC current_offset
      | H_get_choice_hints \<Rightarrow> handle_get_choice_hints cs current_offset
      | H_unk_0xF1 \<Rightarrow> handle_unk_0xF1 current_offset)"

text \<open>
  \<open>process_single_command\<close>: the status is 0 after a handler has run and -1 at the end
  of the data, on a \<open>None\<close> opcode, and after any exception, which the \<open>except\<close> clause
  prints and swallows.
\<close>

definition process_single_command_body :: "codecs \<Rightarrow> int m" where
  "process_single_command_body cs st =
     (if command_data_offset (gbuf st) \<ge> length (command_data (gbuf st)) then (Ok (- 1), st)
      else
        let current_offset = command_data_offset (gbuf st) in
        case get_next_byte (gbuf st) of (opcode, gb1) \<Rightarrow>
          let st1 = st\<lparr>gbuf := gb1\<rparr> in
          (case opcode of
             None \<Rightarrow> seq (emit (Ev_Info ''Tried to dispatch a None opcode'' [])) (\<lambda>_. ret (- 1)) st1
           | Some opcode \<Rightarrow>
               seq (emit (Ev_Info ''Normal opcode at offset'' [int current_offset, opcode])) (\<lambda>_.
                 case opcode_handlers opcode of
                   Some h \<Rightarrow> seq (run_handler cs h current_offset) (\<lambda>_. ret 0)
                 | None \<Rightarrow> seq (handle_unknown_opcode opcode current_offset) (\<lambda>_. ret (- 1))) st1))"

definition process_single_command :: "codecs \<Rightarrow> int m" where
  "process_single_command cs =
     catch (process_single_command_body cs)
       (\<lambda>e. seq (emit (Ev_Error ''Error processing single command'' e)) (\<lambda>_. ret (- 1)))"

section \<open>Frame\<close>

text \<open>
  Every operation of the two dispatchers leaves the command data as they are and never
  moves the cursor backwards; the loops below terminate for that reason.
\<close>

definition buffer_frame :: "(GlobalBuffer \<Rightarrow> 'a \<times> GlobalBuffer) \<Rightarrow> bool" where
  "buffer_frame f \<longleftrightarrow>
     (\<forall>gb. command_data (snd (f gb)) = command_data gb
         \<and> command_data_offset gb \<le> command_data_offset (snd (f gb)))"

definition frame :: "'a m \<Rightarrow> bool" where
  "frame f \<longleftrightarrow>
     (\<forall>st. command_data (gbuf (snd (f st))) = command_data (gbuf st)
         \<and> command_data_offset (gbuf st) \<le> command_data_offset (gbuf (snd (f st))))"

named_theorems frame_intros

lemma frame_ret [frame_intros]: "frame (ret x)"
  by (simp add: frame_def ret_def)

lemma frame_raise [frame_intros]: "frame (raise e)"
  by (simp add: frame_def raise_def)

lemma frame_emit [frame_intros]: "frame (emit e)"
  by (simp add: frame_def emit_def)

lemma frame_seq [frame_intros]:
  assumes "frame f" and "\<And>x. frame (g x)"
  shows "frame (seq f g)"
proof -
  have "command_data (gbuf (snd (seq f g st))) = command_data (gbuf st)
      \<and> command_data_offset (gbuf st) \<le> command_data_offset (gbuf (snd (seq f g st)))" for st
  proof (cases "f st")
    case (Pair r st')
    from assms(1) have f: "command_data (gbuf st') = command_data (gbuf st)"
        "command_data_offset (gbuf st) \<le> command_data_offset (gbuf st')"
      using Pair by (auto simp: frame_def dest: spec [of _ st])
    show ?thesis
    proof (cases r)
      case (Ok x)
      from assms(2) [of x] have "command_data (gbuf (snd (g x st'))) = command_data (gbuf st')"
          "command_data_offset (gbuf st') \<le> command_data_offset (gbuf (snd (g x st')))"
        by (auto simp: frame_def)
      with f Pair Ok show ?thesis by (simp add: seq_def)
    qed (use f Pair in \<open>simp_all add: seq_def\<close>)
  qed
  then show ?thesis by (simp add: frame_def)
qed

lemma frame_catch [frame_intros]:
  assumes "frame f" and "\<And>e. frame (h e)"
  shows "frame (catch f h)"
proof -
  have "command_data (gbuf (snd (catch f h st))) = command_data (gbuf st)
      \<and> command_data_offset (gbuf st) \<le> command_data_offset (gbuf (snd (catch f h st)))" for st
  proof (cases "f st")
    case (Pair r st')
    from assms(1) have f: "command_data (gbuf st') = command_data (gbuf st)"
        "command_data_offset (gbuf st) \<le> command_data_offset (gbuf st')"
      using Pair by (auto simp: frame_def dest: spec [of _ st])
    show ?thesis
    proof (cases r)
      case (Raise e)
      from assms(2) [of e] have "command_data (gbuf (snd (h e st'))) = command_data (gbuf st')"
          "command_data_offset (gbuf st') \<le> command_data_offset (gbuf (snd (h e st')))"
        by (auto simp: frame_def)
      with f Pair Raise show ?thesis by (simp add: catch_def)
    qed (use f Pair in \<open>simp_all add: catch_def\<close>)
  qed
  then show ?thesis by (simp add: frame_def)
qed

lemma frame_on_buffer [frame_intros]: "buffer_frame f \<Longrightarrow> frame (on_buffer f)"
  by (auto simp: frame_def buffer_frame_def on_buffer_def split: prod.splits)
     (metis snd_conv)+

lemma frame_case_prod [frame_intros]: "(\<And>a b. frame (f a b)) \<Longrightarrow> frame (case_prod f p)"
  by (cases p) simp

lemma frame_if [frame_intros]: "frame f \<Longrightarrow> frame g \<Longrightarrow> frame (if c then f else g)"
  by simp

lemma vm_loop_frame:
  "command_data (snd (vm_loop gb vs fs)) = command_data gb
   \<and> command_data_offset gb \<le> command_data_offset (snd (vm_loop gb vs fs))"
proof (induction gb vs fs rule: vm_loop.induct)
  case (1 gb vs fs)
  obtain b gb1 where r1: "read_next_byte gb = (b, gb1)" by (cases "read_next_byte gb")
  have m1: "command_data gb1 = command_data gb" "command_data_offset gb \<le> command_data_offset gb1"
    using read_next_byte_monotone [of b gb1 gb] r1 by simp_all
  show ?case
  proof (cases "b = 255")
    case True
    then have "vm_loop gb vs fs = (Ok (vm_return_value vs), gb1)"
      by (subst vm_loop.simps) (simp add: r1)
    with m1 show ?thesis by simp
  next
    case nt: False
    show ?thesis
    proof (cases "b = 0")
      case False
      obtain operation gb2 where r2: "read_next_byte gb1 = (operation, gb2)"
        by (cases "read_next_byte gb1")
      obtain vs' fs' where ap: "apply_operation operation vs fs = (vs', fs')"
        by (cases "apply_operation operation vs fs")
      have m2: "command_data gb2 = command_data gb1"
          "command_data_offset gb1 \<le> command_data_offset gb2"
        using read_next_byte_monotone [of operation gb2 gb1] r2 by simp_all
      have eq: "vm_loop gb vs fs = vm_loop gb2 vs' fs'"
        by (subst vm_loop.simps) (simp add: r1 r2 ap nt False)
      have "command_data (snd (vm_loop gb2 vs' fs')) = command_data gb2
          \<and> command_data_offset gb2 \<le> command_data_offset (snd (vm_loop gb2 vs' fs'))"
        using "1.IH"(1) [OF r1 [symmetric] nt False r2 [symmetric] ap [symmetric]] .
      with m1 m2 eq show ?thesis by simp
    next
      case True
      obtain r gb2 where r2: "read_processed_value gb1 = (r, gb2)"
        by (cases "read_processed_value gb1")
      have m2: "command_data gb2 = command_data gb1"
          "command_data_offset gb1 \<le> command_data_offset gb2"
        using read_processed_value_monotone [of r gb2 gb1] r2 by simp_all
      show ?thesis
      proof (cases r)
        case (Ok v)
        have eq: "vm_loop gb vs fs = vm_loop gb2 (vs @ [v]) (fs @ [0])"
          by (subst vm_loop.simps) (simp add: r1 r2 nt True Ok)
        have "command_data (snd (vm_loop gb2 (vs @ [v]) (fs @ [0]))) = command_data gb2
            \<and> command_data_offset gb2
                 \<le> command_data_offset (snd (vm_loop gb2 (vs @ [v]) (fs @ [0])))"
          using "1.IH"(2) [OF r1 [symmetric] nt _ r2 [symmetric] Ok] True by simp
        with m1 m2 eq show ?thesis by simp
      next
        case (Raise e)
        have "vm_loop gb vs fs = (Raise e, gb2)"
          by (subst vm_loop.simps) (simp add: r1 r2 nt True Raise)
        with m1 m2 show ?thesis by simp
      next
        case Hang
        have "vm_loop gb vs fs = (Hang, gb2)"
          by (subst vm_loop.simps) (simp add: r1 r2 nt True Hang)
        with m1 m2 show ?thesis by simp
      qed
    qed
  qed
qed

lemma execute_vm_code_frame: "buffer_frame execute_vm_code"
  by (simp add: buffer_frame_def execute_vm_code_def vm_loop_frame)

lemma frame_execute_single [frame_intros]: "frame execute_single"
  unfolding execute_single_def by (intro frame_intros execute_vm_code_frame)

lemma frame_execute_multiple [frame_intros]: "frame (execute_multiple n)"
  by (induction n) (auto intro!: frame_intros)

lemma frame_next_word [frame_intros]: "frame next_word"
  unfolding next_word_def
  by (rule frame_on_buffer) (simp add: buffer_frame_def get_next_word_def)

lemma frame_read_text [frame_intros]: "frame (read_text cs offset)"
  by (simp add: frame_def read_text_def split: option.splits)

lemma frame_cache_name [frame_intros]: "frame (cache_name offset name)"
  by (simp add: frame_def cache_name_def emit_def)

lemma frame_handle_string_opcode [frame_intros]: "frame (handle_string_opcode cs current_offset)"
proof -
  have nw: "command_data (gbuf (snd (next_word st))) = command_data (gbuf st)
      \<and> command_data_offset (gbuf st) \<le> command_data_offset (gbuf (snd (next_word st)))" for st
    using frame_next_word by (simp add: frame_def)
  have "command_data (gbuf (snd (handle_string_opcode cs current_offset st))) = command_data (gbuf st)
      \<and> command_data_offset (gbuf st)
           \<le> command_data_offset (gbuf (snd (handle_string_opcode cs current_offset st)))" for st
    using nw [of st]
    by (auto simp: handle_string_opcode_def Let_def emit_def seq_def cache_name_def
             split: prod.splits result.splits option.splits)
  then show ?thesis by (simp add: frame_def)
qed

lemma frame_run_handler [frame_intros]: "frame (run_handler cs h current_offset)"
  by (cases h)
     (auto simp: run_handler_def handle_newline_def handle_simple_vm_execution_def
        handle_simple_execution_def handle_double_vm_execution_def handle_unk_0x09_def
        handle_show_images_def handle_show_standstills_def handle_unk_0xA6_def
        handle_unk_0xB4_def handle_unk_0x46_def handle_unk_0x6C_def handle_scenario_vm_def
        handle_play_mpg_video_def handle_unk_0xAC_def handle_get_choice_hints_def
        handle_unk_0xF1_def
        intro!: frame_intros)

lemma frameD:
  "frame f \<Longrightarrow>
     command_data (gbuf (snd (f st))) = command_data (gbuf st)
     \<and> command_data_offset (gbuf st) \<le> command_data_offset (gbuf (snd (f st)))"
  by (simp add: frame_def)

lemma process_single_command_at_end:
  "command_data_offset (gbuf st) \<ge> length (command_data (gbuf st)) \<Longrightarrow>
     process_single_command cs st = (Ok (- 1), st)"
  by (simp add: process_single_command_def process_single_command_body_def catch_def)

lemma frame_dispatch:
  "frame (seq (emit ev) (\<lambda>_. case opcode_handlers opcode of
                   Some h \<Rightarrow> seq (run_handler cs h current_offset) (\<lambda>_. ret 0)
                 | None \<Rightarrow> seq (handle_unknown_opcode opcode current_offset) (\<lambda>_. ret (- 1))))"
  by (cases "opcode_handlers opcode")
     (auto simp: handle_unknown_opcode_def intro!: frame_intros)

lemma process_single_command_body_advances:
  assumes "command_data_offset (gbuf st) < length (command_data (gbuf st))"
  shows "command_data (gbuf (snd (process_single_command_body cs st))) = command_data (gbuf st)
       \<and> command_data_offset (gbuf st) + 1
            \<le> command_data_offset (gbuf (snd (process_single_command_body cs st)))"
proof -
  let ?st1 = "st\<lparr>gbuf := (gbuf st)\<lparr>command_data_offset := command_data_offset (gbuf st) + 1\<rparr>\<rparr>"
  let ?b = "uint (command_data (gbuf st) ! command_data_offset (gbuf st))"
  let ?tail = "seq (emit (Ev_Info ''Normal opcode at offset'' [int (command_data_offset (gbuf st)), ?b]))
     (\<lambda>_. case opcode_handlers ?b of
            Some h \<Rightarrow> seq (run_handler cs h (command_data_offset (gbuf st))) (\<lambda>_. ret 0)
          | None \<Rightarrow> seq (handle_unknown_opcode ?b (command_data_offset (gbuf st))) (\<lambda>_. ret (- 1)))"
  from assms have eq: "process_single_command_body cs st = ?tail ?st1"
    by (simp add: process_single_command_body_def get_next_byte_def Let_def)
  have fr: "frame ?tail" by (rule frame_dispatch)
  show ?thesis unfolding eq using frameD [OF fr, of ?st1] by simp
qed

lemma process_single_command_advances:
  assumes "command_data_offset (gbuf st) < length (command_data (gbuf st))"
  shows "command_data (gbuf (snd (process_single_command cs st))) = command_data (gbuf st)
       \<and> command_data_offset (gbuf st) + 1
            \<le> command_data_offset (gbuf (snd (process_single_command cs st)))"
proof (cases "process_single_command_body cs st")
  case (Pair r st')
  with process_single_command_body_advances [OF assms, of cs]
  have b: "command_data (gbuf st') = command_data (gbuf st)"
      "command_data_offset (gbuf st) + 1 \<le> command_data_offset (gbuf st')"
    by simp_all
  show ?thesis
    using b
    by (cases r) (simp_all add: process_single_command_def catch_def Pair seq_def emit_def ret_def)
qed

lemma frame_process_single_command [frame_intros]: "frame (process_single_command cs)"
proof -
  have "command_data (gbuf (snd (process_single_command cs st))) = command_data (gbuf st)
      \<and> command_data_offset (gbuf st)
           \<le> command_data_offset (gbuf (snd (process_single_command cs st)))" for st
  proof (cases "command_data_offset (gbuf st) < length (command_data (gbuf st))")
    case True
    from process_single_command_advances [OF True, of cs] show ?thesis by simp
  next
    case False
    then show ?thesis by (simp add: process_single_command_at_end)
  qed
  then show ?thesis by (simp add: frame_def)
qed




section \<open>SysCall dispatcher (SysCallTable.py)\<close>

text \<open>
  \<open>sub_42164D\<close> searches a table of 238 zero bytes, four bytes a step, for the 16-bit
  value \<open>a1\<close> and returns the 16-bit value that follows the match, or 0.
\<close>

definition from_bytes_little :: "int list \<Rightarrow> int" where
  "from_bytes_little bs = foldr (\<lambda>b acc. b + 256 * acc) bs 0"

function sub_42164D_loop :: "int list \<Rightarrow> nat \<Rightarrow> int \<Rightarrow> nat \<Rightarrow> int" where
  "sub_42164D_loop data table_size a1 v2 =
     (if v2 < table_size - 1 then
        let search_value = from_bytes_little (py_slice data v2 (v2 + 2)) in
        if search_value = a1 then from_bytes_little (py_slice data (v2 + 2) (v2 + 4))
        else sub_42164D_loop data table_size a1 (v2 + 4)
      else 0)"
  by pat_completeness auto
termination
  by (relation "measure (\<lambda>(data, table_size, a1, v2). table_size - v2)") auto

declare sub_42164D_loop.simps [simp del]

definition sub_42164D :: "int \<Rightarrow> int" where
  "sub_42164D a1 =
     (let table_size = 0xee; data = replicate table_size 0
      in if table_size - 1 > 0 then sub_42164D_loop data table_size a1 0 else 0)"

text \<open>
  \<open>_sub_414FE6\<close> (Utilities.py) has the loops of \<open>extract_bit_field\<close> on the pattern
  masked to 16 bits, and extracts the field from the constant 0.
\<close>

definition sub_414FE6 :: "int \<Rightarrow> int \<Rightarrow> int option" where
  "sub_414FE6 a1 a2 =
     (if a2 = 0 then Some a2
      else
        case count_zeros_loop 0 (a2 AND 0xFFFF) of
          None \<Rightarrow> None
        | Some (i, temp_a2) \<Rightarrow>
            (case count_ones_loop 0 temp_a2 of
               None \<Rightarrow> None
             | Some (v4, temp_a2') \<Rightarrow>
                 let mask = push_bit v4 1 - 1;
                     val = 0
                 in Some (drop_bit i val AND mask)))"

text \<open>The byte and word reads of the dispatcher, and their checked versions.\<close>

definition sys_get_next_byte :: "GlobalBuffer \<Rightarrow> int option \<times> GlobalBuffer" where
  "sys_get_next_byte gb =
     (if command_data_offset gb \<ge> length (command_data gb) then (None, gb)
      else (Some (uint (command_data gb ! command_data_offset gb)),
            gb\<lparr>command_data_offset := command_data_offset gb + 1\<rparr>))"

definition sys_get_next_word :: "GlobalBuffer \<Rightarrow> int option \<times> GlobalBuffer" where
  "sys_get_next_word gb =
     (if command_data_offset gb + 1 \<ge> length (command_data gb) then (None, gb)
      else
        let low_byte = uint (command_data gb ! command_data_offset gb);
            high_byte = uint (command_data gb ! (command_data_offset gb + 1))
        in (Some (low_byte OR push_bit 8 high_byte),
            gb\<lparr>command_data_offset := command_data_offset gb + 2\<rparr>))"

definition safe_get_next_byte :: "int m" where
  "safe_get_next_byte =
     on_buffer (\<lambda>gb. case sys_get_next_byte gb of
                       (None, gb') \<Rightarrow> (Raise SysCallOpcodeDisassemblerError_Byte, gb')
                     | (Some byte_val, gb') \<Rightarrow> (Ok byte_val, gb'))"

definition safe_get_next_word :: "int m" where
  "safe_get_next_word =
     on_buffer (\<lambda>gb. case sys_get_next_word gb of
                       (None, gb') \<Rightarrow> (Raise SysCallOpcodeDisassemblerError_Word, gb')
                     | (Some word_val, gb') \<Rightarrow> (Ok word_val, gb'))"

definition evaluate_expression :: "int m" where
  "evaluate_expression = on_buffer execute_vm_code"

definition main_interpreter :: "codecs \<Rightarrow> int m" where
  "main_interpreter cs = process_single_command cs"

definition hang :: "'a m" where
  "hang st = (Hang, st)"

definition handle_conditional_jump :: "nat \<Rightarrow> unit m" where
  "handle_conditional_jump current_offset =
     seq evaluate_expression (\<lambda>condition.
     let jump_target = sub_42164D condition in
     emit (Ev_Info ''Conditional jump'' [int current_offset, condition, jump_target]))"

definition handle_return :: "nat \<Rightarrow> unit m" where
  "handle_return current_offset = emit (Ev_Info ''Return operation'' [int current_offset])"

definition handle_scenario_call :: "nat \<Rightarrow> unit m" where
  "handle_scenario_call current_offset =
     seq evaluate_expression (\<lambda>scenario_id.
     seq evaluate_expression (\<lambda>return_point.
     seq evaluate_expression (\<lambda>extra_param.
     emit (Ev_Info ''Scenario call''
             [int current_offset, scenario_id, return_point, extra_param]))))"

definition handle_end_processing :: "nat \<Rightarrow> unit m" where
  "handle_end_processing current_offset = emit (Ev_Info ''End processing'' [int current_offset])"

definition handle_conditional_skip :: "nat \<Rightarrow> unit m" where
  "handle_conditional_skip current_offset =
     seq evaluate_expression (\<lambda>condition.
     if condition = 0
     then seq safe_get_next_word (\<lambda>jump_target.
            emit (Ev_Info ''Conditional skip'' [int current_offset, jump_target]))
     else ret ())"

definition handle_basic_operation :: "codecs \<Rightarrow> nat \<Rightarrow> unit m" where
  "handle_basic_operation cs current_offset =
     seq (emit (Ev_Info ''[Sys Call] Executing main Interpreter'' [int current_offset])) (\<lambda>_.
     seq (main_interpreter cs) (\<lambda>_. ret ()))"

definition handle_play_wav_opcode :: "nat \<Rightarrow> unit m" where
  "handle_play_wav_opcode current_offset =
     seq safe_get_next_byte (\<lambda>wav_param.
     seq safe_get_next_word (\<lambda>wav_id.
     seq evaluate_expression (\<lambda>expression_result.
     emit (Ev_Info ''Play WAV'' [wav_param, wav_id, expression_result]))))"

definition handle_audio_operation :: "codecs \<Rightarrow> nat \<Rightarrow> unit m" where
  "handle_audio_operation cs current_offset =
     seq (emit (Ev_Info ''Audio operation'' [int current_offset])) (\<lambda>_.
     seq safe_get_next_byte (\<lambda>audio_param.
     seq safe_get_next_word (\<lambda>audio_id.
     seq (main_interpreter cs) (\<lambda>jump_result.
     seq (emit (Ev_Info ''Jump result'' [jump_result])) (\<lambda>_.
     emit (Ev_Info ''Audio op'' [audio_param, audio_id, jump_result]))))))"

definition handle_simple_jump :: "nat \<Rightarrow> unit m" where
  "handle_simple_jump current_offset =
     seq safe_get_next_word (\<lambda>jump_target.
     emit (Ev_Info ''Simple jump'' [int current_offset, jump_target]))"

text \<open>
  The loop of \<open>_handle_switch_case\<close> over \<open>range(case_count)\<close>: \<open>i\<close> is the index of
  the case read next, the third argument the number of cases still to read, and
  \<open>found_match\<close> the flag so far. Every case is printed (\<open>Ev_Case\<close>), a matching one
  is reported (\<open>Ev_Match\<close>) and sets the flag; nothing leaves the loop early.
\<close>

fun scan_cases :: "int \<Rightarrow> nat \<Rightarrow> nat \<Rightarrow> bool \<Rightarrow> bool m" where
  "scan_cases processed_switch_param i 0 found_match = ret found_match"
| "scan_cases processed_switch_param i (Suc n) found_match =
     seq safe_get_next_byte (\<lambda>case_value.
     seq safe_get_next_word (\<lambda>case_target.
     seq (emit (Ev_Case i case_value case_target)) (\<lambda>_.
     if case_value = 255 \<or> processed_switch_param = case_value
     then seq (emit (Ev_Match processed_switch_param case_value case_target)) (\<lambda>_.
            scan_cases processed_switch_param (i + 1) n True)
     else scan_cases processed_switch_param (i + 1) n found_match)))"

text \<open>
  The part of \<open>_handle_switch_case\<close> from \<open>found_match = False\<close> on: the loop, then the
  report of the default target when no case matched.
\<close>

definition match_cases :: "int \<Rightarrow> int \<Rightarrow> int \<Rightarrow> unit m" where
  "match_cases processed_switch_param default_target case_count =
     seq (scan_cases processed_switch_param 0 (nat case_count) False) (\<lambda>found_match.
     if \<not> found_match then emit (Ev_NoMatch processed_switch_param default_target)
     else ret ())"

definition handle_switch_case :: "nat \<Rightarrow> unit m" where
  "handle_switch_case current_offset =
     seq (emit (Ev_Info ''Switch operation'' [int current_offset])) (\<lambda>_.
     seq safe_get_next_byte (\<lambda>switch_param_raw.
     seq safe_get_next_word (\<lambda>switch_value.
     seq safe_get_next_word (\<lambda>default_target.
     seq safe_get_next_byte (\<lambda>case_count.
     seq (emit (Ev_Info ''Raw switch param, switch value'' [switch_param_raw, switch_value])) (\<lambda>_.
     case sub_414FE6 switch_param_raw switch_value of
       None \<Rightarrow> hang
     | Some processed_switch_param \<Rightarrow>
         seq (emit (Ev_Info ''Processed switch param, case count, default target''
                      [processed_switch_param, case_count, default_target])) (\<lambda>_.
         match_cases processed_switch_param default_target case_count)))))))"

text \<open>
  The padding loop of \<open>_handle_scenario_load_opcode\<close>: bytes are read while the byte
  just read is zero; the first non-zero byte is read as well.
\<close>

function skip_zero_padding :: "int option \<Rightarrow> GlobalBuffer \<Rightarrow> GlobalBuffer" where
  "skip_zero_padding next_byte gb =
     (if next_byte = Some 0 then
        (case sys_get_next_byte gb of
           (None, gb') \<Rightarrow> gb'
         | (Some b, gb') \<Rightarrow> skip_zero_padding (Some b) gb')
      else gb)"
  by pat_completeness auto
termination
  by (relation "measure (\<lambda>(next_byte, gb). length (command_data gb) - command_data_offset gb)")
     (auto simp: sys_get_next_byte_def split: if_splits)

declare skip_zero_padding.simps [simp del]

definition handle_scenario_load_opcode :: "nat \<Rightarrow> unit m" where
  "handle_scenario_load_opcode current_offset =
     seq evaluate_expression (\<lambda>scenario_id.
     seq (emit (Ev_Info ''Load scenario'' [scenario_id])) (\<lambda>_.
     on_buffer (\<lambda>gb. case sys_get_next_byte gb of
                       (next_byte, gb') \<Rightarrow> (Ok (), skip_zero_padding next_byte gb'))))"

definition handle_call_operation_opcode :: "nat \<Rightarrow> unit m" where
  "handle_call_operation_opcode current_offset =
     seq evaluate_expression (\<lambda>target_offset.
     seq evaluate_expression (\<lambda>return_address.
     emit (Ev_Info ''Call'' [target_offset, return_address])))"

definition process_extended_opcode :: "codecs \<Rightarrow> int \<Rightarrow> nat \<Rightarrow> unit m" where
  "process_extended_opcode cs opcode current_offset =
     (let adjusted_opcode = opcode - 12 in
      if adjusted_opcode = 0 then handle_conditional_jump current_offset
      else if adjusted_opcode = 1 then handle_return current_offset
      else if adjusted_opcode = 4 then handle_scenario_call current_offset
      else if adjusted_opcode = 5 then handle_end_processing current_offset
      else if adjusted_opcode = 6 then handle_conditional_skip current_offset
      else emit (Ev_Info ''Unknown adjusted opcode'' [adjusted_opcode, opcode]))"

definition process_basic_opcode :: "codecs \<Rightarrow> int \<Rightarrow> nat \<Rightarrow> unit m" where
  "process_basic_opcode cs opcode current_offset =
     (if opcode = 0x00 then handle_basic_operation cs current_offset
      else if opcode = 0x04 then handle_play_wav_opcode current_offset
      else if opcode = 0x05 then handle_audio_operation cs current_offset
      else if opcode = 0x08 then handle_simple_jump current_offset
      else if opcode = 0x09 then handle_switch_case current_offset
      else if opcode = 0x0A then handle_scenario_load_opcode current_offset
      else if opcode = 0x0B then handle_call_operation_opcode current_offset
      else emit (Ev_UnhandledOpcode opcode current_offset))"

definition process_opcode :: "codecs \<Rightarrow> int \<Rightarrow> nat \<Rightarrow> unit m" where
  "process_opcode cs opcode current_offset =
     (if opcode > 0x0B then process_extended_opcode cs opcode current_offset
      else process_basic_opcode cs opcode current_offset)"

lemma frame_hang [frame_intros]: "frame hang"
  by (simp add: frame_def hang_def)

lemma frame_safe_get_next_byte [frame_intros]: "frame safe_get_next_byte"
  unfolding safe_get_next_byte_def
  by (rule frame_on_buffer) (simp add: buffer_frame_def sys_get_next_byte_def)

lemma frame_safe_get_next_word [frame_intros]: "frame safe_get_next_word"
  unfolding safe_get_next_word_def
  by (rule frame_on_buffer) (simp add: buffer_frame_def sys_get_next_word_def Let_def)

lemma frame_evaluate_expression [frame_intros]: "frame evaluate_expression"
  unfolding evaluate_expression_def by (intro frame_intros execute_vm_code_frame)

lemma frame_main_interpreter [frame_intros]: "frame (main_interpreter cs)"
  by (simp add: main_interpreter_def frame_process_single_command)

lemma frame_scan_cases [frame_intros]: "frame (scan_cases x i n found)"
  by (induction n arbitrary: i found) (auto intro!: frame_intros)

lemma skip_zero_padding_frame:
  "command_data (skip_zero_padding next_byte gb) = command_data gb
   \<and> command_data_offset gb \<le> command_data_offset (skip_zero_padding next_byte gb)"
proof (induction next_byte gb rule: skip_zero_padding.induct)
  case (1 next_byte gb)
  show ?case
  proof (cases "next_byte = Some 0")
    case False
    then have "skip_zero_padding next_byte gb = gb"
      by (subst skip_zero_padding.simps) simp
    then show ?thesis by simp
  next
    case z: True
    show ?thesis
    proof (cases "command_data_offset gb < length (command_data gb)")
      case False
      then have "sys_get_next_byte gb = (None, gb)"
        by (simp add: sys_get_next_byte_def)
      with z have "skip_zero_padding next_byte gb = gb"
        by (subst skip_zero_padding.simps) simp
      then show ?thesis by simp
    next
      case True
      let ?gb' = "gb\<lparr>command_data_offset := command_data_offset gb + 1\<rparr>"
      let ?b = "uint (command_data gb ! command_data_offset gb)"
      from True have r: "sys_get_next_byte gb = (Some ?b, ?gb')"
        by (simp add: sys_get_next_byte_def)
      have eq: "skip_zero_padding next_byte gb = skip_zero_padding (Some ?b) ?gb'"
        using z r by (subst skip_zero_padding.simps) simp
      have "command_data (skip_zero_padding (Some ?b) ?gb') = command_data ?gb'
          \<and> command_data_offset ?gb' \<le> command_data_offset (skip_zero_padding (Some ?b) ?gb')"
        using "1.IH" [OF z r [symmetric] refl] .
      then show ?thesis unfolding eq by simp
    qed
  qed
qed

lemma skip_after_byte_frame:
  "buffer_frame (\<lambda>gb. case sys_get_next_byte gb of
                         (next_byte, gb') \<Rightarrow> (Ok (), skip_zero_padding next_byte gb'))"
proof -
  have "command_data (skip_zero_padding nb gb') = command_data gb
      \<and> command_data_offset gb \<le> command_data_offset (skip_zero_padding nb gb')"
    if "sys_get_next_byte gb = (nb, gb')" for gb nb gb'
  proof -
    from that have "command_data gb' = command_data gb"
        "command_data_offset gb \<le> command_data_offset gb'"
      by (auto simp: sys_get_next_byte_def split: if_splits)
    with skip_zero_padding_frame [of nb gb'] show ?thesis by simp
  qed
  then show ?thesis
    by (simp add: buffer_frame_def split: prod.splits)
qed

lemma frame_handle_scenario_load_opcode: "frame (handle_scenario_load_opcode current_offset)"
  unfolding handle_scenario_load_opcode_def
  by (intro frame_intros skip_after_byte_frame)

lemma frame_handle_switch_case: "frame (handle_switch_case current_offset)"
  unfolding handle_switch_case_def match_cases_def
  by (auto intro!: frame_intros split: option.splits)

lemma frame_process_opcode [frame_intros]: "frame (process_opcode cs opcode current_offset)"
  by (auto simp: process_opcode_def process_extended_opcode_def process_basic_opcode_def Let_def
        handle_conditional_jump_def handle_return_def handle_scenario_call_def
        handle_end_processing_def handle_conditional_skip_def handle_basic_operation_def
        handle_play_wav_opcode_def handle_audio_operation_def handle_simple_jump_def
        handle_call_operation_opcode_def frame_handle_scenario_load_opcode
        frame_handle_switch_case
        intro!: frame_intros)

text \<open>
  \<open>process_sys_calls\<close>: the loop over the command data, inside the \<open>try\<close> whose two
  \<open>except\<close> clauses print the exception and end the run.
\<close>

function process_sys_calls_loop :: "codecs \<Rightarrow> dstate \<Rightarrow> unit result \<times> dstate" where
  "process_sys_calls_loop cs st =
     (if command_data_offset (gbuf st) < length (command_data (gbuf st)) then
        let current_offset = command_data_offset (gbuf st) in
        case sys_get_next_byte (gbuf st) of
          (None, gb1) \<Rightarrow> (Ok (), st\<lparr>gbuf := gb1\<rparr>)
        | (Some opcode, gb1) \<Rightarrow>
            (case seq (emit (Ev_Info ''Processing opcode'' [int current_offset, opcode]))
                      (\<lambda>_. process_opcode cs opcode current_offset) (st\<lparr>gbuf := gb1\<rparr>) of
               (Ok u, st') \<Rightarrow> process_sys_calls_loop cs st'
             | (Raise e, st') \<Rightarrow> (Raise e, st')
             | (Hang, st') \<Rightarrow> (Hang, st'))
      else (Ok (), st))"
  by pat_completeness auto
termination
proof (relation "measure (\<lambda>(cs, st). length (command_data (gbuf st)) - command_data_offset (gbuf st))")
  show "wf (measure (\<lambda>(cs, st). length (command_data (gbuf st)) - command_data_offset (gbuf st)))"
    by simp
next
  fix cs st x xa y x2 xb ya x1
  assume lt: "command_data_offset (gbuf st) < length (command_data (gbuf st))"
    and rd: "(xa, y) = sys_get_next_byte (gbuf st)" "xa = Some x2"
    and run: "(xb, ya) = seq (emit (Ev_Info ''Processing opcode'' [int x, x2]))
                 (\<lambda>_. process_opcode cs x2 x) (st\<lparr>gbuf := y\<rparr>)"
  from lt rd have y: "command_data y = command_data (gbuf st)"
      "command_data_offset y = command_data_offset (gbuf st) + 1"
    by (auto simp: sys_get_next_byte_def)
  have "frame (seq (emit (Ev_Info ''Processing opcode'' [int x, x2]))
                 (\<lambda>_. process_opcode cs x2 x))"
    by (intro frame_intros)
  from frameD [OF this, of "st\<lparr>gbuf := y\<rparr>"] run [symmetric] y lt
  show "((cs, ya), cs, st)
      \<in> measure (\<lambda>(cs, st). length (command_data (gbuf st)) - command_data_offset (gbuf st))"
    by auto
qed

declare process_sys_calls_loop.simps [simp del]


text \<open>
  A fragment of the two codecs, enough for the examples: an ASCII byte decodes to its
  own code point, the byte pairs \<open>0x81 0x79\<close> and \<open>0x81 0x7A\<close> to the brackets U+3010
  and U+3011; the fragment does not decode anything else.
\<close>

fun decode_fragment :: "byte list \<Rightarrow> pystr option" where
  "decode_fragment [] = Some []"
| "decode_fragment [b] = (if b < 0x80 then Some [unat b] else None)"
| "decode_fragment (b1 # b2 # bs) =
     (if b1 < 0x80 then map_option (Cons (unat b1)) (decode_fragment (b2 # bs))
      else if b1 = 0x81 \<and> b2 = 0x79 then map_option (Cons 0x3010) (decode_fragment bs)
      else if b1 = 0x81 \<and> b2 = 0x7A then map_option (Cons 0x3011) (decode_fragment bs)
      else None)"

definition fragment_codecs :: codecs where
  "fragment_codecs = \<lparr>shift_jis = decode_fragment, cp932 = decode_fragment\<rparr>"

section \<open>Container parser: properties\<close>

lemma parse_header_fields:
  assumes "12 \<le> length data"
  shows "parse_header data
           = Inr \<lparr>reserved1 = unat (data ! 0) + 256 * unat (data ! 1) + 65536 * unat (data ! 2)
                              + 16777216 * unat (data ! 3),
                  command_block_size = unat (data ! 4) + 256 * unat (data ! 5),
                  command_block_for_text_size = unat (data ! 6) + 256 * unat (data ! 7),
                  string_table_size = unat (data ! 8) + 256 * unat (data ! 9),
                  reserved2 = unat (data ! 10) + 256 * unat (data ! 11)\<rparr>"
  using assms
  by (simp add: parse_header_def py_slice_def read_uint16_def read_uint32_def Let_def)

lemma parse_header_too_small:
  "length data < 12 \<Longrightarrow> parse_header data = Inl DisassemblerError_TooSmall"
  by (simp add: parse_header_def)

lemma py_slice_take_drop: "py_slice xs a (a + n) = take n (drop a xs)"
  by (simp add: py_slice_def take_drop add.commute)

lemma length_py_slice: "a + n \<le> length xs \<Longrightarrow> length (py_slice xs a (a + n)) = n"
  by (simp add: py_slice_def)

text \<open>
  Claim C1. With \<open>a\<close>, \<open>b\<close>, \<open>c\<close> the three sizes of the header: when
  \<open>12 + a + b + c\<close> is at most the length of the input, the setup succeeds, the command
  data are exactly the \<open>b\<close> bytes from offset \<open>12 + a\<close>, the text data are exactly
  the \<open>c\<close> bytes that follow, and the cursor is 0; when \<open>12 + a + b + c\<close> exceeds the
  length of the input, the setup raises the truncation error and yields no buffer.
\<close>

theorem setup_global_buffers_spec:
  fixes data :: "byte list" and header :: FileHeader and gb :: GlobalBuffer
  defines "a \<equiv> command_block_size header"
      and "b \<equiv> command_block_for_text_size header"
      and "c \<equiv> string_table_size header"
  shows "(12 + a + b + c \<le> length data \<longrightarrow>
            (\<exists>gb'. setup_global_buffers data header gb = Inr gb'
               \<and> command_data gb' = take b (drop (12 + a) data)
               \<and> length (command_data gb') = b
               \<and> text_data gb' = take c (drop (12 + a + b) data)
               \<and> length (text_data gb') = c
               \<and> command_data_offset gb' = 0))
       \<and> (length data < 12 + a + b + c \<longrightarrow>
            setup_global_buffers data header gb
              = Inl (DisassemblerError_Truncated (length data) (12 + a + b + c)))"
proof (intro conjI impI)
  assume fits: "12 + a + b + c \<le> length data"
  have cm: "py_slice data (12 + a) (12 + a + b) = take b (drop (12 + a) data)"
    by (rule py_slice_take_drop)
  have tx: "py_slice data (12 + a + b) (12 + a + b + c) = take c (drop (12 + a + b) data)"
    by (rule py_slice_take_drop)
  from fits have lb: "length (take b (drop (12 + a) data)) = b" by simp
  from fits have lc: "length (take c (drop (12 + a + b) data)) = c" by simp
  from fits have "setup_global_buffers data header gb
      = Inr (gb\<lparr>command_data := take b (drop (12 + a) data),
                 text_data := take c (drop (12 + a + b) data),
                 command_data_offset := 0\<rparr>)"
    unfolding setup_global_buffers_def Let_def a_def b_def c_def
    using cm tx by (simp add: a_def b_def c_def)
  with lb lc show "\<exists>gb'. setup_global_buffers data header gb = Inr gb'
               \<and> command_data gb' = take b (drop (12 + a) data)
               \<and> length (command_data gb') = b
               \<and> text_data gb' = take c (drop (12 + a + b) data)
               \<and> length (text_data gb') = c
               \<and> command_data_offset gb' = 0"
    by simp
next
  assume "length data < 12 + a + b + c"
  then show "setup_global_buffers data header gb
              = Inl (DisassemblerError_Truncated (length data) (12 + a + b + c))"
    unfolding setup_global_buffers_def Let_def a_def b_def c_def by simp
qed

theorem setup_global_buffers_spec_witness:
  "setup_global_buffers [0,0,0,0, 1,0, 2,0, 3,0, 0,0, 0xAA, 0x10,0x11, 0x41,0x42,0x00]
      \<lparr>reserved1 = 0, command_block_size = 1, command_block_for_text_size = 2,
       string_table_size = 3, reserved2 = 0\<rparr>
      \<lparr>command_data = [], text_data = [], command_data_offset = 7, text_data_offset = 0\<rparr>
    = Inr \<lparr>command_data = [0x10, 0x11], text_data = [0x41, 0x42, 0x00],
           command_data_offset = 0, text_data_offset = 0\<rparr>
   \<and> setup_global_buffers [0,0,0,0, 1,0, 2,0, 3,0, 0,0, 0xAA, 0x10,0x11, 0x41,0x42]
      \<lparr>reserved1 = 0, command_block_size = 1, command_block_for_text_size = 2,
       string_table_size = 3, reserved2 = 0\<rparr>
      \<lparr>command_data = [], text_data = [], command_data_offset = 7, text_data_offset = 0\<rparr>
    = Inl (DisassemblerError_Truncated 17 18)"
  using setup_global_buffers_spec
          [where data = "[0,0,0,0, 1,0, 2,0, 3,0, 0,0, 0xAA, 0x10,0x11, 0x41,0x42,0x00]"
             and header = "\<lparr>reserved1 = 0, command_block_size = 1, command_block_for_text_size = 2,
                            string_table_size = 3, reserved2 = 0\<rparr>"
             and gb = "\<lparr>command_data = [], text_data = [], command_data_offset = 7, text_data_offset = 0\<rparr>"]
        setup_global_buffers_spec
          [where data = "[0,0,0,0, 1,0, 2,0, 3,0, 0,0, 0xAA, 0x10,0x11, 0x41,0x42]"
             and header = "\<lparr>reserved1 = 0, command_block_size = 1, command_block_for_text_size = 2,
                            string_table_size = 3, reserved2 = 0\<rparr>"
             and gb = "\<lparr>command_data = [], text_data = [], command_data_offset = 7, text_data_offset = 0\<rparr>"]
  by (auto simp: setup_global_buffers_def py_slice_def)

section \<open>Expression VM: properties\<close>

lemmas vm_eval = read_next_byte_cases get_next_word_def read_processed_value_def py_slice_def
  read_uint16_def apply_operation_def binary_op_def set_top_def vm_return_value_def
  logical_not_12_def

subsection \<open>The bit-field extraction primitive\<close>

lemma and_one_eq_0_iff: "(p::int) AND 1 = 0 \<longleftrightarrow> \<not> bit p 0"
  by (simp add: bit_0 and_one_eq even_iff_mod_2_eq_zero)

lemma is_field_iff:
  "is_field p s w \<longleftrightarrow>
     (\<forall>k < s. \<not> bit p k) \<and> (\<forall>k < w. bit p (s + k)) \<and> \<not> bit p (s + w) \<and> 0 < w"
  by (auto simp: is_field_def list_all_iff)

lemma count_zeros_loop_run:
  "(\<forall>k < s. \<not> bit p k) \<Longrightarrow> bit p s \<Longrightarrow> count_zeros_loop n p = Some (n + s, drop_bit s p)"
proof (induction s arbitrary: n p)
  case 0
  then have "p AND 1 \<noteq> 0" by (simp add: and_one_eq_0_iff)
  then show ?case by (subst count_zeros_loop.simps) simp
next
  case (Suc s)
  from Suc.prems(1) have "\<not> bit p 0" by simp
  then have ev: "p AND 1 = 0" by (simp add: and_one_eq_0_iff)
  have "\<forall>k < s. \<not> bit (drop_bit 1 p) k"
    using Suc.prems(1) by (simp add: bit_drop_bit_eq)
  moreover have "bit (drop_bit 1 p) s"
    using Suc.prems(2) by (simp add: bit_drop_bit_eq)
  ultimately have "count_zeros_loop (n + 1) (drop_bit 1 p) = Some (n + 1 + s, drop_bit s (drop_bit 1 p))"
    by (rule Suc.IH)
  with ev show ?case
    by (subst count_zeros_loop.simps) (simp add: drop_bit_drop_bit)
qed

lemma count_ones_loop_run:
  "(\<forall>k < w. bit q k) \<Longrightarrow> \<not> bit q w \<Longrightarrow> count_ones_loop n q = Some (n + w, drop_bit w q)"
proof (induction w arbitrary: n q)
  case 0
  then have "q AND 1 = 0" by (simp add: and_one_eq_0_iff)
  then show ?case by (subst count_ones_loop.simps) simp
next
  case (Suc w)
  from Suc.prems(1) have "bit q 0" by simp
  then have od: "q AND 1 \<noteq> 0" by (simp add: and_one_eq_0_iff)
  have "\<forall>k < w. bit (drop_bit 1 q) k"
    using Suc.prems(1) by (simp add: bit_drop_bit_eq)
  moreover have "\<not> bit (drop_bit 1 q) w"
    using Suc.prems(2) by (simp add: bit_drop_bit_eq)
  ultimately have "count_ones_loop (n + 1) (drop_bit 1 q) = Some (n + 1 + w, drop_bit w (drop_bit 1 q))"
    by (rule Suc.IH)
  with od show ?case
    by (subst count_ones_loop.simps) (simp add: drop_bit_drop_bit)
qed

lemma is_field_exists:
  assumes "0 < p"
  shows "\<exists>s w. is_field p s w"
proof -
  from assms have "p \<noteq> 0" by simp
  then obtain k0 where "bit p k0" by (auto simp: bit_eq_iff)
  define s where "s = (LEAST k. bit p k)"
  have bs: "bit p s" unfolding s_def using \<open>bit p k0\<close> by (rule LeastI)
  have below: "\<not> bit p k" if "k < s" for k
    using that not_less_Least unfolding s_def by blast
  have "\<exists>j. \<not> bit p (s + j)"
  proof -
    have "int (nat p) < int (2 ^ nat p)"
      by (simp only: of_nat_less_iff less_exp)
    with assms have "p < 2 ^ nat p" by simp
    also have "(2::int) ^ nat p \<le> 2 ^ (s + nat p)"
      by (rule power_increasing) simp_all
    finally have "p div 2 ^ (s + nat p) = 0"
      using assms by (simp add: div_pos_pos_trivial)
    then have "\<not> bit p (s + nat p)" by (simp add: bit_iff_odd)
    then show ?thesis by blast
  qed
  then obtain j0 where "\<not> bit p (s + j0)" by blast
  define w where "w = (LEAST j. \<not> bit p (s + j))"
  have nw: "\<not> bit p (s + w)" unfolding w_def using \<open>\<not> bit p (s + j0)\<close> by (rule LeastI)
  have run: "bit p (s + k)" if "k < w" for k
    using that not_less_Least unfolding w_def by blast
  have "0 < w" using bs nw by (cases w) auto
  with below run nw show ?thesis
    by (auto simp: is_field_iff)
qed


lemma extract_bit_field_is_field:
  assumes "is_field p s w"
  shows "extract_bit_field wt i p
           = Some (drop_bit s (if i < length wt then wt ! i else 0) AND (push_bit w 1 - 1))"
proof -
  from assms have zeros: "\<forall>k < s. \<not> bit p k" and ones: "\<forall>k < w. bit p (s + k)"
    and stop: "\<not> bit p (s + w)" and pos: "0 < w"
    by (simp_all add: is_field_iff)
  from ones pos have bs: "bit p s" by (metis add.right_neutral)
  then have nz: "p \<noteq> 0" by auto
  have z: "count_zeros_loop 0 p = Some (s, drop_bit s p)"
    using count_zeros_loop_run [OF zeros bs, of 0] by simp
  have "\<forall>k < w. bit (drop_bit s p) k"
    using ones by (simp add: bit_drop_bit_eq)
  moreover have "\<not> bit (drop_bit s p) w"
    using stop by (simp add: bit_drop_bit_eq)
  ultimately have o: "count_ones_loop 0 (drop_bit s p) = Some (w, drop_bit w (drop_bit s p))"
    using count_ones_loop_run [of w "drop_bit s p" 0] by simp
  from pos have m: "create_mask w = push_bit w 1 - 1"
    by (simp add: create_mask_def)
  show ?thesis
    by (simp add: extract_bit_field_def nz z o m Let_def)
qed

lemma is_field_48: "is_field 48 4 2"
  by (simp add: is_field_def bit_iff_odd upt_rec)

text \<open>
  Claim C5. For every table and table index and every pattern: on the pattern 0 the
  extraction returns 0; on a pattern whose trailing zero bits number \<open>shift\<close> and whose run
  of one-bits above them has length \<open>width\<close>, it returns the table value at the index
  (0 when the index is outside the table) shifted right by \<open>shift\<close> and masked with
  \<open>(1 << width) - 1\<close>; every positive pattern has such a \<open>shift\<close> and \<open>width\<close>, so the
  extraction returns on every 16-bit pattern. The pattern \<open>0b00110000\<close> has shift 4 and
  width 2, and gives \<open>(V >> 4) & 0x3\<close> for the table value \<open>V\<close>.
\<close>

theorem extract_bit_field_spec:
  "extract_bit_field wt i 0 = Some 0
   \<and> (\<forall>s w. is_field p s w \<longrightarrow>
         extract_bit_field wt i p
           = Some (drop_bit s (if i < length wt then wt ! i else 0) AND (push_bit w 1 - 1)))
   \<and> (0 < p \<longrightarrow> (\<exists>s w. is_field p s w))
   \<and> is_field 48 4 2
   \<and> extract_bit_field wt i 48 = Some (drop_bit 4 (if i < length wt then wt ! i else 0) AND 3)"
proof (intro conjI allI impI)
  show "extract_bit_field wt i 0 = Some 0"
    by (simp add: extract_bit_field_def)
  show "0 < p \<Longrightarrow> \<exists>s w. is_field p s w"
    by (rule is_field_exists)
  show "is_field 48 4 2" by (rule is_field_48)
  show "extract_bit_field wt i 48 = Some (drop_bit 4 (if i < length wt then wt ! i else 0) AND 3)"
    using extract_bit_field_is_field [OF is_field_48, of wt i] by simp
qed (rule extract_bit_field_is_field)

theorem extract_bit_field_spec_witness:
  "is_field 176 4 2 \<and> (0::int) < 176
   \<and> extract_bit_field [0x1234, 0xB5] 1 176 = Some 3
   \<and> extract_bit_field [0x1234, 0xB5] 2 176 = Some 0"
proof -
  have f: "is_field 176 4 2"
    by (simp add: is_field_def bit_iff_odd upt_rec)
  have "extract_bit_field [0x1234, 0xB5] 1 176
          = Some (drop_bit 4 (if 1 < length [0x1234, 0xB5 :: int] then [0x1234, 0xB5] ! 1 else 0)
                    AND (push_bit 2 1 - 1))"
    using extract_bit_field_spec [of "[0x1234, 0xB5]" 1 176] f by blast
  moreover have "extract_bit_field [0x1234, 0xB5] 2 176
          = Some (drop_bit 4 (if 2 < length [0x1234, 0xB5 :: int] then [0x1234, 0xB5] ! 2 else 0)
                    AND (push_bit 2 1 - 1))"
    using extract_bit_field_spec [of "[0x1234, 0xB5]" 2 176] f by blast
  ultimately show ?thesis using f by simp
qed

subsection \<open>The terminator\<close>

text \<open>
  Claim C10. When the cursor is at or past the end of the command data, the byte read
  is the end-of-data marker \<open>0xFF\<close> and the cursor does not move; the evaluation returns
  0 at once and leaves the buffer as it was.
\<close>

theorem vm_at_end_of_data:
  assumes "command_data_offset gb \<ge> length (command_data gb)"
  shows "read_next_byte gb = (0xFF, gb) \<and> execute_vm_code gb = (Ok 0, gb)"
proof -
  from assms have r: "read_next_byte gb = (0xFF, gb)"
    by (simp add: read_next_byte_cases)
  then have "vm_loop gb [] [] = (Ok 0, gb)"
    by (subst vm_loop.simps) (simp add: vm_return_value_def)
  with r show ?thesis by (simp add: execute_vm_code_def)
qed

theorem vm_at_end_of_data_witness:
  "read_next_byte \<lparr>command_data = [0x00, 0xFF, 0x05], text_data = [], command_data_offset = 3, text_data_offset = 0\<rparr>
     = (0xFF, \<lparr>command_data = [0x00, 0xFF, 0x05], text_data = [], command_data_offset = 3, text_data_offset = 0\<rparr>)
   \<and> execute_vm_code \<lparr>command_data = [0x00, 0xFF, 0x05], text_data = [], command_data_offset = 3, text_data_offset = 0\<rparr>
     = (Ok 0, \<lparr>command_data = [0x00, 0xFF, 0x05], text_data = [], command_data_offset = 3, text_data_offset = 0\<rparr>)"
  using vm_at_end_of_data [of "\<lparr>command_data = [0x00, 0xFF, 0x05], text_data = [], command_data_offset = 3, text_data_offset = 0\<rparr>"]
  by simp

text \<open>
  Claim C2, as amended. When the byte read at the top of the interpreter loop is \<open>0xFF\<close>,
  the evaluation ends at once and returns the first element pushed on \<open>value_stack\<close>
  (the stack the operand pushes go to), or 0 when that stack is empty, whatever
  \<open>flag_stack\<close> holds; on a stream whose first byte is \<open>0xFF\<close> it returns 0.
\<close>

theorem vm_sentinel_returns_value_stack_bottom:
  assumes "fst (read_next_byte gb) = 0xFF"
  shows "vm_loop gb value_stack flag_stack
           = (Ok (if value_stack = [] then 0 else hd value_stack), snd (read_next_byte gb))
       \<and> execute_vm_code gb = (Ok 0, snd (read_next_byte gb))"
proof -
  obtain gb1 where r: "read_next_byte gb = (0xFF, gb1)"
    using assms by (cases "read_next_byte gb") simp
  have ret: "vm_return_value vs = (if vs = [] then 0 else hd vs)" for vs
    by (cases vs) (simp_all add: vm_return_value_def)
  have "vm_loop gb vs fs = (Ok (vm_return_value vs), gb1)" for vs fs
    by (subst vm_loop.simps) (simp add: r)
  then show ?thesis by (simp add: execute_vm_code_def ret r)
qed

theorem vm_sentinel_witness:
  "vm_loop \<lparr>command_data = [0x15, 0xFF], text_data = [], command_data_offset = 1, text_data_offset = 0\<rparr> [5, 3] [0, 0]
     = (Ok 5, \<lparr>command_data = [0x15, 0xFF], text_data = [], command_data_offset = 2, text_data_offset = 0\<rparr>)
   \<and> execute_vm_code \<lparr>command_data = [0x15, 0xFF], text_data = [], command_data_offset = 1, text_data_offset = 0\<rparr>
     = (Ok 0, \<lparr>command_data = [0x15, 0xFF], text_data = [], command_data_offset = 2, text_data_offset = 0\<rparr>)"
  using vm_sentinel_returns_value_stack_bottom
    [of "\<lparr>command_data = [0x15, 0xFF], text_data = [], command_data_offset = 1, text_data_offset = 0\<rparr>" "[5, 3]" "[0, 0]"]
  by (simp add: read_next_byte_cases)

text \<open>
  The claim as stated, with the stack the operators write to (\<open>flag_stack\<close>) in place
  of \<open>value_stack\<close>, fails on the stream that pushes the operand 5 and ends: at the
  terminator \<open>value_stack\<close> is \<open>[5]\<close> and \<open>flag_stack\<close> is \<open>[0]\<close>, and the result
  is 5.
\<close>

theorem vm_sentinel_accumulator_counterexample:
  "execute_vm_code \<lparr>command_data = [0x00, 0xFF, 0x05, 0x00, 0xFF], text_data = [], command_data_offset = 0, text_data_offset = 0\<rparr>
     = vm_loop \<lparr>command_data = [0x00, 0xFF, 0x05, 0x00, 0xFF], text_data = [], command_data_offset = 4, text_data_offset = 0\<rparr> [5] [0]
   \<and> vm_loop \<lparr>command_data = [0x00, 0xFF, 0x05, 0x00, 0xFF], text_data = [], command_data_offset = 4, text_data_offset = 0\<rparr> [5] [0]
     = (Ok 5, \<lparr>command_data = [0x00, 0xFF, 0x05, 0x00, 0xFF], text_data = [], command_data_offset = 5, text_data_offset = 0\<rparr>)
   \<and> vm_return_value [0] \<noteq> 5"
  by (simp add: execute_vm_code_def vm_loop.simps vm_eval)

subsection \<open>Operators\<close>

text \<open>
  Claim C3. The stream pushes 5 and 3 (index byte \<open>0xFF\<close>, so the operands are taken
  as they are), then has a non-zero byte that opens the operator phase, the operator
  code 21 (subtraction) and the terminator. The subtraction stores
  \<open>(flag_stack[-1] - val) & 0xFFFFFFFF\<close> in the top slot of \<open>flag_stack\<close> and pops that
  slot at once; the value returned is \<open>value_stack[0]\<close>, which is 5, not 2.
\<close>

theorem vm_subtraction_5_3_returns_5:
  "execute_vm_code \<lparr>command_data = [0x00, 0xFF, 0x05, 0x00, 0x00, 0xFF, 0x03, 0x00, 0x01, 0x15, 0xFF],
                     text_data = [], command_data_offset = 0, text_data_offset = 0\<rparr>
     = (Ok 5, \<lparr>command_data = [0x00, 0xFF, 0x05, 0x00, 0x00, 0xFF, 0x03, 0x00, 0x01, 0x15, 0xFF],
                text_data = [], command_data_offset = 11, text_data_offset = 0\<rparr>)"
  by (simp add: execute_vm_code_def vm_loop.simps vm_eval op_sub_def)

lemma binary_op_pop:
  "value_stack \<noteq> [] \<Longrightarrow> flag_stack \<noteq> [] \<Longrightarrow>
     binary_op f value_stack flag_stack
       = (butlast value_stack, butlast (set_top flag_stack (f (last flag_stack) (last value_stack))))"
  by (cases value_stack; cases flag_stack) (simp_all add: binary_op_def Let_def)

text \<open>
  With a divisor 0 on top of \<open>value_stack\<close>, division and modulo store 0 in the top slot
  of \<open>flag_stack\<close> and pop that slot in the next statement: the 0 is never read again.
\<close>

lemma division_by_zero_result_is_dropped:
  "apply_operation 23 (value_stack @ [0]) (flag_stack @ [acc]) = (value_stack, flag_stack)"
  "apply_operation 24 (value_stack @ [0]) (flag_stack @ [acc]) = (value_stack, flag_stack)"
  by (simp_all add: apply_operation_def binary_op_pop set_top_def)

text \<open>
  Claim C4. The first stream pushes 5 and 0 (index byte \<open>0xFF\<close>, so the operands are
  taken as they are), then has a non-zero byte that opens the operator phase, the
  operator code 23 (division) and the terminator; the second stream has the operator
  code 24 (modulo) in its place. No exception is raised, but the value returned is
  \<open>value_stack[0]\<close>, the dividend 5, not 0: the 0 that the operator stores in the top
  slot of \<open>flag_stack\<close> is popped at once. The third stream pushes 7, 5 and 0, divides
  and then adds, and returns 7.
\<close>

theorem division_by_zero_returns_first_operand:
  "execute_vm_code \<lparr>command_data = [0x00, 0xFF, 0x05, 0x00, 0x00, 0xFF, 0x00, 0x00, 0x01, 0x17, 0xFF],
                     text_data = [], command_data_offset = 0, text_data_offset = 0\<rparr>
     = (Ok 5, \<lparr>command_data = [0x00, 0xFF, 0x05, 0x00, 0x00, 0xFF, 0x00, 0x00, 0x01, 0x17, 0xFF],
                text_data = [], command_data_offset = 11, text_data_offset = 0\<rparr>)
   \<and> execute_vm_code \<lparr>command_data = [0x00, 0xFF, 0x05, 0x00, 0x00, 0xFF, 0x00, 0x00, 0x01, 0x18, 0xFF],
                     text_data = [], command_data_offset = 0, text_data_offset = 0\<rparr>
     = (Ok 5, \<lparr>command_data = [0x00, 0xFF, 0x05, 0x00, 0x00, 0xFF, 0x00, 0x00, 0x01, 0x18, 0xFF],
                text_data = [], command_data_offset = 11, text_data_offset = 0\<rparr>)
   \<and> execute_vm_code \<lparr>command_data = [0x00, 0xFF, 0x07, 0x00, 0x00, 0xFF, 0x05, 0x00, 0x00, 0xFF, 0x00, 0x00,
                                      0x01, 0x17, 0x01, 0x14, 0xFF],
                     text_data = [], command_data_offset = 0, text_data_offset = 0\<rparr>
     = (Ok 7, \<lparr>command_data = [0x00, 0xFF, 0x07, 0x00, 0x00, 0xFF, 0x05, 0x00, 0x00, 0xFF, 0x00, 0x00,
                                 0x01, 0x17, 0x01, 0x14, 0xFF],
                text_data = [], command_data_offset = 17, text_data_offset = 0\<rparr>)"
  by (simp add: execute_vm_code_def vm_loop.simps vm_eval op_div_def op_mod_def op_add_def)

section \<open>String decoder: properties\<close>

lemma read_C_string_loop_nonnull:
  assumes "\<forall>j. current_offset \<le> j \<and> j < length data \<longrightarrow> data ! j \<noteq> 0"
      and "length result \<le> 5000"
  shows "read_C_string_loop data current_offset result
           = (current_offset + min (length data - current_offset) (5001 - length result),
              result @ take (min (length data - current_offset) (5001 - length result))
                         (drop current_offset data),
              False)"
  using assms
proof (induction data current_offset result rule: read_C_string_loop.induct)
  case (1 data current_offset result)
  show ?case
  proof (cases "current_offset < length data")
    case False
    then show ?thesis by (subst read_C_string_loop.simps) simp
  next
    case True
    with "1.prems"(1) have nz: "data ! current_offset \<noteq> 0" by simp
    show ?thesis
    proof (cases "length result = 5000")
      case full: True
      have "min (length data - current_offset) (5001 - length result) = 1"
        using True full by simp
      moreover have "take 1 (drop current_offset data) = [data ! current_offset]"
        using True by (simp add: take_Suc_conv_app_nth hd_drop_conv_nth take_Suc)
      ultimately show ?thesis
        using True nz full by (subst read_C_string_loop.simps) (simp add: Let_def)
    next
      case notfull: False
      with "1.prems"(2) have lt: "length result < 5000" by simp
      have ih: "read_C_string_loop data (current_offset + 1) (result @ [data ! current_offset])
           = (current_offset + 1 + min (length data - (current_offset + 1))
                                      (5001 - length (result @ [data ! current_offset])),
              (result @ [data ! current_offset])
                @ take (min (length data - (current_offset + 1))
                            (5001 - length (result @ [data ! current_offset])))
                       (drop (current_offset + 1) data),
              False)"
        using "1.IH" [OF True refl nz refl refl] lt "1.prems"(1) by simp
      have k: "min (length data - current_offset) (5001 - length result)
                 = Suc (min (length data - (current_offset + 1))
                            (5001 - length (result @ [data ! current_offset])))"
        using True lt by simp
      have d: "drop current_offset data = data ! current_offset # drop (current_offset + 1) data"
        using True by (simp add: Cons_nth_drop_Suc)
      show ?thesis
        using True nz lt ih
        by (subst read_C_string_loop.simps) (simp add: Let_def k d)
    qed
  qed
qed

lemma loop_AB: "read_C_string_loop [0x41, 0x42, 0x00] 0 [] = (3, [0x41, 0x42], True)"
  by (simp add: read_C_string_loop.simps)

lemma loop_00: "read_C_string_loop [0x00, 0x00] 0 [] = (2, [], True)"
  by (simp add: read_C_string_loop.simps)



lemma decode_fragment_replicate:
  "decode_fragment (replicate n 0x41) = Some (replicate n 0x41)"
proof (induction n rule: less_induct)
  case (less n)
  show ?case
  proof (cases n)
    case 0
    then show ?thesis by simp
  next
    case (Suc m)
    show ?thesis
    proof (cases m)
      case 0
      with Suc show ?thesis by simp
    next
      case (Suc k)
      have "decode_fragment (replicate (Suc k) 0x41) = Some (replicate (Suc k) 0x41)"
        using less.IH [of "Suc k"] \<open>n = Suc m\<close> Suc by simp
      then show ?thesis using \<open>n = Suc m\<close> Suc by simp
    qed
  qed
qed

lemma strip_nul_replicate: "strip_nul (replicate n 0x41) = replicate n 0x41"
  by (cases n) (simp_all add: strip_nul_def dropWhile_eq_self_iff
                 flip: replicate_append_same replicate_Suc)

lemma read_C_string_AB:
  "read_C_string fragment_codecs [0x41, 0x42, 0x00] 0 = Ok (3, [0x41, 0x42])"
  by (simp add: read_C_string_def read_C_string_loop.simps fragment_codecs_def strip_nul_def)

lemma read_C_string_empty:
  "read_C_string fragment_codecs [0x00, 0x00] 0 = Ok (2, [])"
  by (simp add: read_C_string_def read_C_string_loop.simps fragment_codecs_def strip_nul_def)

text \<open>
  Claim C6. The examples with a terminator hold (\<open>read_C_string_AB\<close>,
  \<open>read_C_string_empty\<close> above). The cap does not: the test \<open>len(result) > 5000\<close>
  comes after the byte has been appended, so the loop stops once 5001 bytes have
  accumulated. On 5001 non-null bytes, and on 6000, \<open>read_C_string\<close> consumes 5001 bytes,
  not 5000, where the comment in the source says "don't read more than 5000 bytes".
\<close>

theorem read_C_string_cap_is_5001:
  "read_C_string_loop (replicate 5001 0x41) 0 [] = (5001, replicate 5001 0x41, False)
   \<and> read_C_string_loop (replicate 6000 0x41) 0 [] = (5001, replicate 5001 0x41, False)
   \<and> read_C_string fragment_codecs (replicate 5001 0x41) 0 = Ok (5001, replicate 5001 0x41)
   \<and> read_C_string fragment_codecs (replicate 6000 0x41) 0 = Ok (5001, replicate 5001 0x41)"
proof -
  have a: "read_C_string_loop (replicate 5001 0x41) 0 [] = (5001, replicate 5001 0x41, False)"
    using read_C_string_loop_nonnull [of 0 "replicate 5001 0x41" "[]"] by simp
  have b: "read_C_string_loop (replicate 6000 0x41) 0 [] = (5001, replicate 5001 0x41, False)"
    using read_C_string_loop_nonnull [of 0 "replicate 6000 0x41" "[]"] by simp
  show ?thesis
    by (simp add: a b read_C_string_def fragment_codecs_def decode_fragment_replicate
          strip_nul_replicate)
qed

lemma read_C_string_loop_ge:
  "current_offset \<le> fst (read_C_string_loop data current_offset result)"
proof (induction data current_offset result rule: read_C_string_loop.induct)
  case (1 data current_offset result)
  show ?case
  proof (cases "current_offset < length data \<and> data ! current_offset \<noteq> 0
                  \<and> \<not> length (result @ [data ! current_offset]) > 5000")
    case True
    then have "read_C_string_loop data current_offset result
        = read_C_string_loop data (current_offset + 1) (result @ [data ! current_offset])"
      by (subst read_C_string_loop.simps) (simp add: Let_def)
    moreover have "current_offset + 1
        \<le> fst (read_C_string_loop data (current_offset + 1) (result @ [data ! current_offset]))"
      using "1.IH" [OF _ refl _ refl refl] True by simp
    ultimately show ?thesis by simp
  next
    case False
    then show ?thesis
      by (subst read_C_string_loop.simps) (auto simp: Let_def)
  qed
qed

lemma read_C_string_loop_consumes:
  assumes "current_offset < length data"
  shows "current_offset < fst (read_C_string_loop data current_offset result)"
proof (cases "data ! current_offset \<noteq> 0 \<and> \<not> length (result @ [data ! current_offset]) > 5000")
  case True
  with assms have "read_C_string_loop data current_offset result
      = read_C_string_loop data (current_offset + 1) (result @ [data ! current_offset])"
    by (subst read_C_string_loop.simps) (simp add: Let_def)
  with read_C_string_loop_ge [of "current_offset + 1" data "result @ [data ! current_offset]"]
  show ?thesis by simp
next
  case False
  with assms show ?thesis
    by (subst read_C_string_loop.simps) (auto simp: Let_def)
qed

lemma read_C_string_bytes_read_positive:
  assumes "txt_offset < length data" and "read_C_string cs data txt_offset = Ok (n, s)"
  shows "0 < n"
proof -
  obtain c r f where l: "read_C_string_loop data txt_offset [] = (c, r, f)"
    by (cases "read_C_string_loop data txt_offset []")
  with read_C_string_loop_consumes [OF assms(1), of "[]"] have "txt_offset < c" by simp
  with assms(2) l show ?thesis
    by (auto simp: read_C_string_def split: option.splits)
qed

section \<open>Normal opcode dispatcher: properties\<close>

lemmas dispatch_eval = process_single_command_def process_single_command_body_def catch_def
  seq_def emit_def ret_def raise_def on_buffer_def next_word_def get_next_byte_def
  get_next_word_def py_slice_def read_uint16_def run_handler_def handle_unknown_opcode_def

text \<open>
  Whatever the state, \<open>_handle_string_opcode\<close> reports a string only as decoded: for a
  text offset inside the text data \<open>read_C_string\<close> returns a length of at least 1, so
  the branch under \<open>length == 0 and get_string_flag == 1\<close>, which would consult the name
  cache, is never taken.
\<close>

lemma handle_string_opcode_never_uses_cache:
  "\<exists>evs. out (snd (handle_string_opcode cs current_offset st)) = out st @ evs
         \<and> (\<forall>text_offset s res. Ev_String text_offset s res \<in> set evs \<longrightarrow> res = Decoded)"
proof -
  obtain w gb1 where g: "get_next_word (gbuf st) = (w, gb1)"
    by (cases "get_next_word (gbuf st)")
  have nw: "next_word st = (Ok w, st\<lparr>gbuf := gb1\<rparr>)"
    by (simp add: next_word_def on_buffer_def g)
  show ?thesis
  proof (cases "current_offset \<ge> length (command_data (gbuf st))")
    case True
    then show ?thesis by (simp add: handle_string_opcode_def)
  next
    case inrange: False
    show ?thesis
    proof (cases w)
      case None
      with inrange nw show ?thesis
        by (simp add: handle_string_opcode_def Let_def emit_def)
    next
      case (Some v)
      show ?thesis
      proof (cases "nat v < length (text_data gb1)")
        case False
        with inrange nw Some show ?thesis
          by (simp add: handle_string_opcode_def Let_def emit_def)
      next
        case True
        show ?thesis
        proof (cases "read_C_string cs (text_data gb1) (nat v)")
          case (Ok p)
          obtain n s where p: "p = (n, s)" by (cases p)
          with Ok True have "0 < n"
            using read_C_string_bytes_read_positive [of "nat v" "text_data gb1" cs n s] by simp
          with inrange nw Some True Ok p show ?thesis
            by (simp add: handle_string_opcode_def Let_def emit_def seq_def cache_name_def)
        next
          case (Raise e)
          with inrange nw Some True show ?thesis
            by (simp add: handle_string_opcode_def Let_def)
        next
          case Hang
          with inrange nw Some True show ?thesis
            by (simp add: handle_string_opcode_def Let_def)
        qed
      qed
    qed
  qed
qed

lemma opcode_handlers_string: "opcode_handlers 0 = Some H_string_opcode"
    "opcode_handlers 1 = Some H_string_opcode"
  by (simp_all add: opcode_handlers_def opcode_handler_entries_def)

lemma opcode_handlers_3: "opcode_handlers 3 = None"
  by (simp add: opcode_handlers_def opcode_handler_entries_def)

lemma read_name_at_100:
  "read_C_string fragment_codecs
     (replicate 100 0x41 @ [0x81, 0x79, 0x4E, 0x61, 0x6D, 0x65, 0x81, 0x7A, 0x00, 0x42, 0x00]) 100
   = Ok (9, [0x3010, 0x4E, 0x61, 0x6D, 0x65, 0x3011])"
  by (simp add: read_C_string_def read_C_string_loop.simps fragment_codecs_def strip_nul_def
        nth_append)

lemma read_empty_at_110:
  "read_C_string fragment_codecs
     (replicate 100 0x41 @ [0x81, 0x79, 0x4E, 0x61, 0x6D, 0x65, 0x81, 0x7A, 0x00, 0x42, 0x00]) 110
   = Ok (1, [])"
  by (simp add: read_C_string_def read_C_string_loop.simps fragment_codecs_def strip_nul_def
        nth_append)

definition name_example :: dstate where
  "name_example =
     \<lparr>gbuf = \<lparr>command_data = [0x01, 100, 0x00, 0x01, 110, 0x00],
              text_data = replicate 100 0x41
                 @ [0x81, 0x79, 0x4E, 0x61, 0x6D, 0x65, 0x81, 0x7A, 0x00, 0x42, 0x00],
              command_data_offset = 0, text_data_offset = 0\<rparr>,
      names = \<lparr>cache = Map.empty, last_saved_name = [], last_saved_name_offset = None\<rparr>,
      out = []\<rparr>"

lemma name_example_first:
  "process_single_command fragment_codecs name_example
     = (Ok 0,
        name_example
          \<lparr>gbuf := (gbuf name_example)\<lparr>command_data_offset := 3\<rparr>,
           names := \<lparr>cache = [100 \<mapsto> [0x3010, 0x4E, 0x61, 0x6D, 0x65, 0x3011]],
                     last_saved_name = [0x3010, 0x4E, 0x61, 0x6D, 0x65, 0x3011],
                     last_saved_name_offset = Some 100\<rparr>,
           out := [Ev_Info ''Normal opcode at offset'' [0, 1],
                   Ev_String 100 [0x3010, 0x4E, 0x61, 0x6D, 0x65, 0x3011] Decoded,
                   Ev_CachedName [0x3010, 0x4E, 0x61, 0x6D, 0x65, 0x3011] 100]\<rparr>)"
  by (simp add: name_example_def dispatch_eval opcode_handlers_string handle_string_opcode_def
        read_name_at_100 cache_name_def is_japanese_name_bracket_def Let_def)

text \<open>
  Claim C7. The first command (opcode \<open>0x01\<close>, text offset 100) decodes the bracketed
  name and caches it. The second command (opcode \<open>0x01\<close>, so \<open>get_string_flag = 1\<close>,
  text offset 110) decodes an empty string: \<open>read_C_string\<close> returns the length 1, the
  terminator it consumed, so the test \<open>length == 0\<close> fails, the branch that consults the
  name cache is not taken, and the string reported is the empty one, not the cached name.
\<close>

theorem empty_string_is_not_resolved_from_cache:
  "process_single_command fragment_codecs
     (snd (process_single_command fragment_codecs name_example))
     = (Ok 0,
        name_example
          \<lparr>gbuf := (gbuf name_example)\<lparr>command_data_offset := 6\<rparr>,
           names := \<lparr>cache = [100 \<mapsto> [0x3010, 0x4E, 0x61, 0x6D, 0x65, 0x3011]],
                     last_saved_name = [0x3010, 0x4E, 0x61, 0x6D, 0x65, 0x3011],
                     last_saved_name_offset = Some 100\<rparr>,
           out := [Ev_Info ''Normal opcode at offset'' [0, 1],
                   Ev_String 100 [0x3010, 0x4E, 0x61, 0x6D, 0x65, 0x3011] Decoded,
                   Ev_CachedName [0x3010, 0x4E, 0x61, 0x6D, 0x65, 0x3011] 100,
                   Ev_Info ''Normal opcode at offset'' [3, 1],
                   Ev_String 110 [] Decoded]\<rparr>)"
  unfolding name_example_first
  by (simp add: name_example_def dispatch_eval opcode_handlers_string handle_string_opcode_def
        read_empty_at_110 cache_name_def is_japanese_name_bracket_def Let_def)

section \<open>SysCall dispatcher: properties\<close>

subsection \<open>Switch/case\<close>

text \<open>
  A case in the command data is three bytes: the case value and the two bytes of its
  target, low byte first. \<open>case_matches\<close> is the matching rule as the specification
  words it; \<open>expected_reports\<close> lists what has to be printed for a list of cases: the
  line of every case, followed by the match line when the case matches.
\<close>

type_synonym switch_case = "byte \<times> byte \<times> byte"

definition encode_cases :: "switch_case list \<Rightarrow> byte list" where
  "encode_cases cases = concat (map (\<lambda>(v, lo, hi). [v, lo, hi]) cases)"

definition case_target :: "switch_case \<Rightarrow> int" where
  "case_target c = (case c of (v, lo, hi) \<Rightarrow> uint lo OR push_bit 8 (uint hi))"

definition case_matches :: "int \<Rightarrow> switch_case \<Rightarrow> bool" where
  "case_matches x c = (case c of (v, lo, hi) \<Rightarrow> uint v = x \<or> uint v = 0xFF)"

fun expected_reports :: "int \<Rightarrow> nat \<Rightarrow> switch_case list \<Rightarrow> event list" where
  "expected_reports x i [] = []"
| "expected_reports x i (c # cases) =
     Ev_Case i (uint (fst c)) (case_target c)
       # (if case_matches x c then [Ev_Match x (uint (fst c)) (case_target c)] else [])
       @ expected_reports x (i + 1) cases"

lemma safe_get_next_byte_at:
  assumes "command_data (gbuf st) = pre @ v # rest" and "command_data_offset (gbuf st) = length pre"
  shows "safe_get_next_byte st
           = (Ok (uint v), st\<lparr>gbuf := (gbuf st)\<lparr>command_data_offset := length pre + 1\<rparr>\<rparr>)"
  using assms by (simp add: safe_get_next_byte_def on_buffer_def sys_get_next_byte_def)

lemma safe_get_next_word_at:
  assumes "command_data (gbuf st) = pre @ lo # hi # rest"
      and "command_data_offset (gbuf st) = length pre"
  shows "safe_get_next_word st
           = (Ok (uint lo OR push_bit 8 (uint hi)),
              st\<lparr>gbuf := (gbuf st)\<lparr>command_data_offset := length pre + 2\<rparr>\<rparr>)"
  using assms
  by (simp add: safe_get_next_word_def on_buffer_def sys_get_next_word_def Let_def nth_append)

lemma scan_cases_reports:
  assumes "command_data (gbuf st) = pre @ encode_cases cases @ post"
      and "command_data_offset (gbuf st) = length pre"
  shows "scan_cases x i (length cases) found st
           = (Ok (found \<or> (\<exists>c \<in> set cases. case_matches x c)),
              st\<lparr>gbuf := (gbuf st)\<lparr>command_data_offset := length pre + 3 * length cases\<rparr>,
                 out := out st @ expected_reports x i cases\<rparr>)"
  using assms
proof (induction cases arbitrary: pre i found st)
  case Nil
  then show ?case by (simp add: ret_def)
next
  case (Cons c cases)
  obtain v lo hi where c: "c = (v, lo, hi)" by (cases c)
  let ?rest = "encode_cases cases @ post"
  from Cons.prems c have d0: "command_data (gbuf st) = pre @ v # (lo # hi # ?rest)"
    by (simp add: encode_cases_def)
  let ?st1 = "st\<lparr>gbuf := (gbuf st)\<lparr>command_data_offset := length pre + 1\<rparr>\<rparr>"
  have r1: "safe_get_next_byte st = (Ok (uint v), ?st1)"
    using safe_get_next_byte_at [OF d0 Cons.prems(2)] .
  have d1: "command_data (gbuf ?st1) = (pre @ [v]) @ lo # hi # ?rest"
      "command_data_offset (gbuf ?st1) = length (pre @ [v])"
    using d0 by simp_all
  let ?st2 = "st\<lparr>gbuf := (gbuf st)\<lparr>command_data_offset := length pre + 3\<rparr>\<rparr>"
  have r2: "safe_get_next_word ?st1 = (Ok (case_target c), ?st2)"
    using safe_get_next_word_at [OF d1] by (simp add: case_target_def c)
  let ?evs = "Ev_Case i (uint v) (case_target c)
       # (if case_matches x c then [Ev_Match x (uint v) (case_target c)] else [])"
  let ?st3 = "?st2\<lparr>out := out st @ ?evs\<rparr>"
  have d3: "command_data (gbuf ?st3) = (pre @ [v, lo, hi]) @ encode_cases cases @ post"
      "command_data_offset (gbuf ?st3) = length (pre @ [v, lo, hi])"
    using d0 by simp_all
  have m: "case_matches x c \<longleftrightarrow> (uint v = 255 \<or> x = uint v)"
    by (auto simp: case_matches_def c)
  have step: "scan_cases x i (length (c # cases)) found st
        = scan_cases x (i + 1) (length cases) (found \<or> case_matches x c) ?st3"
    using r1 r2 by (simp add: seq_def emit_def m)
  have "scan_cases x (i + 1) (length cases) (found \<or> case_matches x c) ?st3
        = (Ok ((found \<or> case_matches x c) \<or> (\<exists>c \<in> set cases. case_matches x c)),
           ?st3\<lparr>gbuf := (gbuf ?st3)\<lparr>command_data_offset
                        := length (pre @ [v, lo, hi]) + 3 * length cases\<rparr>,
                 out := out ?st3 @ expected_reports x (i + 1) cases\<rparr>)"
    by (rule Cons.IH [OF d3])
  then show ?case unfolding step by (auto simp: c)
qed


lemma match_cases_reports:
  assumes "command_data (gbuf st) = pre @ encode_cases cases @ post"
      and "command_data_offset (gbuf st) = length pre"
  shows "match_cases x default_target (int (length cases)) st
           = (Ok (),
              st\<lparr>gbuf := (gbuf st)\<lparr>command_data_offset := length pre + 3 * length cases\<rparr>,
                 out := out st @ expected_reports x 0 cases
                          @ (if \<exists>c \<in> set cases. case_matches x c then []
                             else [Ev_NoMatch x default_target])\<rparr>)"
  using scan_cases_reports [OF assms, of x 0 False]
  by (simp add: match_cases_def seq_def emit_def ret_def)

text \<open>
  In \<open>_handle_switch_case\<close> itself the extracted parameter is always 0, since
  \<open>_sub_414FE6\<close> extracts the field from the constant 0.
\<close>

lemma sub_414FE6_zero:
  assumes "0 \<le> a2" and "a2 < 65536"
  shows "sub_414FE6 a1 a2 = Some 0"
proof (cases "a2 = 0")
  case True
  then show ?thesis by (simp add: sub_414FE6_def)
next
  case False
  have m: "a2 AND 0xFFFF = a2"
  proof -
    have "a2 AND mask 16 = a2"
      using assms by (simp add: take_bit_int_eq_self flip: take_bit_eq_mask)
    then show ?thesis by (simp add: mask_eq_exp_minus_1)
  qed
  from False assms have "0 < a2" by simp
  then obtain s w where f: "is_field a2 s w" using is_field_exists by blast
  then have zeros: "\<forall>k < s. \<not> bit a2 k" and ones: "\<forall>k < w. bit a2 (s + k)"
    and stop: "\<not> bit a2 (s + w)" and pos: "0 < w"
    by (simp_all add: is_field_iff)
  from ones pos have bs: "bit a2 s" by (metis add.right_neutral)
  have z: "count_zeros_loop 0 a2 = Some (s, drop_bit s a2)"
    using count_zeros_loop_run [OF zeros bs, of 0] by simp
  have "\<forall>k < w. bit (drop_bit s a2) k"
    using ones by (simp add: bit_drop_bit_eq)
  moreover have "\<not> bit (drop_bit s a2) w"
    using stop by (simp add: bit_drop_bit_eq)
  ultimately have o: "count_ones_loop 0 (drop_bit s a2) = Some (w, drop_bit w (drop_bit s a2))"
    using count_ones_loop_run [of w "drop_bit s a2" 0] by simp
  show ?thesis
    using False by (simp add: sub_414FE6_def m z o Let_def)
qed


lemma word_of_bytes_bounds:
  fixes lo hi :: byte
  shows "0 \<le> uint lo OR push_bit 8 (uint hi)" and "uint lo OR push_bit 8 (uint hi) < 65536"
proof -
  have l: "0 \<le> uint lo" "uint lo < 2 ^ 16"
    using uint_lt2p [of lo] by simp_all
  have "uint hi < 2 ^ 8" using uint_lt2p [of hi] by simp
  then have "push_bit 8 (uint hi) < 2 ^ 8 * 2 ^ 8"
    by (simp add: push_bit_eq_mult)
  then have h: "0 \<le> push_bit 8 (uint hi)" "push_bit 8 (uint hi) < 2 ^ 16"
    by simp_all
  show "0 \<le> uint lo OR push_bit 8 (uint hi)" using l h by simp
  have "uint lo OR push_bit 8 (uint hi) < 2 ^ 16"
    using l h by (intro OR_upper) simp_all
  then show "uint lo OR push_bit 8 (uint hi) < 65536" by simp
qed

lemma handle_switch_case_reports:
  assumes "command_data (gbuf st)
             = pre @ [raw, vlo, vhi, dlo, dhi, count] @ encode_cases cases @ post"
      and "command_data_offset (gbuf st) = length pre"
      and "unat count = length cases"
  shows "handle_switch_case current_offset st
           = (Ok (),
              st\<lparr>gbuf := (gbuf st)\<lparr>command_data_offset
                            := length pre + 6 + 3 * length cases\<rparr>,
                 out := out st
                   @ [Ev_Info ''Switch operation'' [int current_offset],
                      Ev_Info ''Raw switch param, switch value''
                        [uint raw, uint vlo OR push_bit 8 (uint vhi)],
                      Ev_Info ''Processed switch param, case count, default target''
                        [0, uint count, uint dlo OR push_bit 8 (uint dhi)]]
                   @ expected_reports 0 0 cases
                   @ (if \<exists>c \<in> set cases. case_matches 0 c then []
                      else [Ev_NoMatch 0 (uint dlo OR push_bit 8 (uint dhi))])\<rparr>)"
proof -
  let ?e1 = "Ev_Info ''Switch operation'' [int current_offset]"
  let ?swv = "uint vlo OR push_bit 8 (uint vhi)"
  let ?dflt = "uint dlo OR push_bit 8 (uint dhi)"
  let ?e2 = "Ev_Info ''Raw switch param, switch value'' [uint raw, ?swv]"
  let ?e3 = "Ev_Info ''Processed switch param, case count, default target''
               [0, uint count, ?dflt]"
  let ?st0 = "st\<lparr>out := out st @ [?e1]\<rparr>"
  let ?st1 = "?st0\<lparr>gbuf := (gbuf st)\<lparr>command_data_offset := length pre + 1\<rparr>\<rparr>"
  let ?st2 = "?st0\<lparr>gbuf := (gbuf st)\<lparr>command_data_offset := length pre + 3\<rparr>\<rparr>"
  let ?st3 = "?st0\<lparr>gbuf := (gbuf st)\<lparr>command_data_offset := length pre + 5\<rparr>\<rparr>"
  let ?st4 = "?st0\<lparr>gbuf := (gbuf st)\<lparr>command_data_offset := length pre + 6\<rparr>\<rparr>"
  let ?st5 = "?st4\<lparr>out := out st @ [?e1, ?e2, ?e3]\<rparr>"
  have r1: "safe_get_next_byte ?st0 = (Ok (uint raw), ?st1)"
    using safe_get_next_byte_at [of ?st0 pre raw "[vlo, vhi, dlo, dhi, count] @ encode_cases cases @ post"]
      assms(1,2) by simp
  have r2: "safe_get_next_word ?st1 = (Ok ?swv, ?st2)"
    using safe_get_next_word_at [of ?st1 "pre @ [raw]" vlo vhi "[dlo, dhi, count] @ encode_cases cases @ post"]
      assms(1,2) by simp
  have r3: "safe_get_next_word ?st2 = (Ok ?dflt, ?st3)"
    using safe_get_next_word_at [of ?st2 "pre @ [raw, vlo, vhi]" dlo dhi "[count] @ encode_cases cases @ post"]
      assms(1,2) by simp
  have r4: "safe_get_next_byte ?st3 = (Ok (uint count), ?st4)"
    using safe_get_next_byte_at [of ?st3 "pre @ [raw, vlo, vhi, dlo, dhi]" count "encode_cases cases @ post"]
      assms(1,2) by simp
  have p: "sub_414FE6 (uint raw) ?swv = Some 0"
    by (rule sub_414FE6_zero) (rule word_of_bytes_bounds)+
  have cnt: "uint count = int (length cases)"
    using assms(3) by (simp flip: assms(3))
  have m: "match_cases 0 ?dflt (int (length cases)) ?st5
             = (Ok (),
                ?st5\<lparr>gbuf := (gbuf ?st5)\<lparr>command_data_offset
                             := length (pre @ [raw, vlo, vhi, dlo, dhi, count]) + 3 * length cases\<rparr>,
                     out := out ?st5 @ expected_reports 0 0 cases
                          @ (if \<exists>c \<in> set cases. case_matches 0 c then []
                             else [Ev_NoMatch 0 ?dflt])\<rparr>)"
    using match_cases_reports
            [of ?st5 "pre @ [raw, vlo, vhi, dlo, dhi, count]" cases post 0 ?dflt]
      assms(1) by simp
  show ?thesis
    using r1 r2 r3 r4 m
    by (simp add: handle_switch_case_def seq_def emit_def p cnt)
qed

text \<open>
  Claim C8. For every switch command lying in the command data at the cursor (the raw
  parameter, the switch value, the default target, the case count and that many cases),
  \<open>_handle_switch_case\<close> returns normally with the cursor behind the last case: every
  case has been read and printed, exactly the cases whose value is the extracted
  parameter or \<open>0xFF\<close> are reported, each when it is read, and the default target is
  reported after the loop if and only if no case matched. The extracted parameter is
  what \<open>_sub_414FE6\<close> returns, which is 0 for every raw parameter and switch value; the
  loop of the handler, started where the handler starts it, applies the same rule to
  every parameter \<open>x\<close>. With the case values 5 and \<open>0xFF\<close> the wildcard case is reported
  and the case 5 is not, for the parameter 0 of the handler as for the parameter 7.
\<close>

theorem switch_case_matching:
  assumes "command_data (gbuf st)
             = pre @ [raw, vlo, vhi, dlo, dhi, count] @ encode_cases cases @ post"
      and "command_data_offset (gbuf st) = length pre"
      and "unat count = length cases"
  shows "handle_switch_case current_offset st
           = (Ok (),
              st\<lparr>gbuf := (gbuf st)\<lparr>command_data_offset
                            := length pre + 6 + 3 * length cases\<rparr>,
                 out := out st
                   @ [Ev_Info ''Switch operation'' [int current_offset],
                      Ev_Info ''Raw switch param, switch value''
                        [uint raw, uint vlo OR push_bit 8 (uint vhi)],
                      Ev_Info ''Processed switch param, case count, default target''
                        [0, uint count, uint dlo OR push_bit 8 (uint dhi)]]
                   @ expected_reports 0 0 cases
                   @ (if \<exists>c \<in> set cases. case_matches 0 c then []
                      else [Ev_NoMatch 0 (uint dlo OR push_bit 8 (uint dhi))])\<rparr>)
       \<and> sub_414FE6 (uint raw) (uint vlo OR push_bit 8 (uint vhi)) = Some 0
       \<and> match_cases x (uint dlo OR push_bit 8 (uint dhi)) (uint count)
             (st\<lparr>gbuf := (gbuf st)\<lparr>command_data_offset := length pre + 6\<rparr>\<rparr>)
           = (Ok (),
              st\<lparr>gbuf := (gbuf st)\<lparr>command_data_offset
                            := length pre + 6 + 3 * length cases\<rparr>,
                 out := out st @ expected_reports x 0 cases
                   @ (if \<exists>c \<in> set cases. case_matches x c then []
                      else [Ev_NoMatch x (uint dlo OR push_bit 8 (uint dhi))])\<rparr>)"
proof -
  let ?dflt = "uint dlo OR push_bit 8 (uint dhi)"
  let ?st6 = "st\<lparr>gbuf := (gbuf st)\<lparr>command_data_offset := length pre + 6\<rparr>\<rparr>"
  have cnt: "uint count = int (length cases)"
    using assms(3) by (simp flip: assms(3))
  have "match_cases x ?dflt (int (length cases)) ?st6
          = (Ok (),
             ?st6\<lparr>gbuf := (gbuf ?st6)\<lparr>command_data_offset
                          := length (pre @ [raw, vlo, vhi, dlo, dhi, count]) + 3 * length cases\<rparr>,
                  out := out ?st6 @ expected_reports x 0 cases
                       @ (if \<exists>c \<in> set cases. case_matches x c then []
                          else [Ev_NoMatch x ?dflt])\<rparr>)"
    using match_cases_reports
            [of ?st6 "pre @ [raw, vlo, vhi, dlo, dhi, count]" cases post x ?dflt]
      assms(1) by simp
  then have loop: "match_cases x ?dflt (uint count) ?st6
          = (Ok (),
             st\<lparr>gbuf := (gbuf st)\<lparr>command_data_offset := length pre + 6 + 3 * length cases\<rparr>,
                out := out st @ expected_reports x 0 cases
                     @ (if \<exists>c \<in> set cases. case_matches x c then []
                        else [Ev_NoMatch x ?dflt])\<rparr>)"
    by (simp add: cnt)
  have p: "sub_414FE6 (uint raw) (uint vlo OR push_bit 8 (uint vhi)) = Some 0"
    by (rule sub_414FE6_zero) (rule word_of_bytes_bounds)+
  show ?thesis
    using handle_switch_case_reports [OF assms, of current_offset] p loop by simp
qed

theorem switch_case_matching_witness:
  "handle_switch_case 0
     \<lparr>gbuf = \<lparr>command_data = [0x09, 0x01, 0x03, 0x00, 0x63, 0x00, 0x02,
                                     0x05, 0x10, 0x00, 0xFF, 0x20, 0x00],
               text_data = [], command_data_offset = 1, text_data_offset = 0\<rparr>,
      names = \<lparr>cache = Map.empty, last_saved_name = [], last_saved_name_offset = None\<rparr>,
      out = []\<rparr>
   = (Ok (),
      \<lparr>gbuf = \<lparr>command_data = [0x09, 0x01, 0x03, 0x00, 0x63, 0x00, 0x02,
                                     0x05, 0x10, 0x00, 0xFF, 0x20, 0x00],
               text_data = [], command_data_offset = 13, text_data_offset = 0\<rparr>,
      names = \<lparr>cache = Map.empty, last_saved_name = [], last_saved_name_offset = None\<rparr>,
      out = [Ev_Info ''Switch operation'' [0],
             Ev_Info ''Raw switch param, switch value'' [1, 3],
             Ev_Info ''Processed switch param, case count, default target'' [0, 2, 99],
             Ev_Case 0 5 16, Ev_Case 1 255 32, Ev_Match 0 255 32]\<rparr>)
   \<and> match_cases 7 99 2
     \<lparr>gbuf = \<lparr>command_data = [0x09, 0x01, 0x03, 0x00, 0x63, 0x00, 0x02,
                                     0x05, 0x10, 0x00, 0xFF, 0x20, 0x00],
               text_data = [], command_data_offset = 7, text_data_offset = 0\<rparr>,
      names = \<lparr>cache = Map.empty, last_saved_name = [], last_saved_name_offset = None\<rparr>,
      out = []\<rparr>
   = (Ok (),
      \<lparr>gbuf = \<lparr>command_data = [0x09, 0x01, 0x03, 0x00, 0x63, 0x00, 0x02,
                                     0x05, 0x10, 0x00, 0xFF, 0x20, 0x00],
               text_data = [], command_data_offset = 13, text_data_offset = 0\<rparr>,
      names = \<lparr>cache = Map.empty, last_saved_name = [], last_saved_name_offset = None\<rparr>,
      out = [Ev_Case 0 5 16, Ev_Case 1 255 32, Ev_Match 7 255 32]\<rparr>)
   \<and> handle_switch_case 0
     \<lparr>gbuf = \<lparr>command_data = [0x09, 0x01, 0x03, 0x00, 0x63, 0x00, 0x01, 0x05, 0x10, 0x00],
               text_data = [], command_data_offset = 1, text_data_offset = 0\<rparr>,
      names = \<lparr>cache = Map.empty, last_saved_name = [], last_saved_name_offset = None\<rparr>,
      out = []\<rparr>
   = (Ok (),
      \<lparr>gbuf = \<lparr>command_data = [0x09, 0x01, 0x03, 0x00, 0x63, 0x00, 0x01, 0x05, 0x10, 0x00],
               text_data = [], command_data_offset = 10, text_data_offset = 0\<rparr>,
      names = \<lparr>cache = Map.empty, last_saved_name = [], last_saved_name_offset = None\<rparr>,
      out = [Ev_Info ''Switch operation'' [0],
             Ev_Info ''Raw switch param, switch value'' [1, 3],
             Ev_Info ''Processed switch param, case count, default target'' [0, 1, 99],
             Ev_Case 0 5 16, Ev_NoMatch 0 99]\<rparr>)"
  using switch_case_matching
          [of "\<lparr>gbuf = \<lparr>command_data = [0x09, 0x01, 0x03, 0x00, 0x63, 0x00, 0x02,
                                     0x05, 0x10, 0x00, 0xFF, 0x20, 0x00],
               text_data = [], command_data_offset = 1, text_data_offset = 0\<rparr>,
      names = \<lparr>cache = Map.empty, last_saved_name = [], last_saved_name_offset = None\<rparr>,
      out = []\<rparr>"
              "[0x09]" "0x01" "0x03" "0x00" "0x63" "0x00" "0x02"
              "[(0x05, 0x10, 0x00), (0xFF, 0x20, 0x00)]" "[]" 0 7]
        switch_case_matching
          [of "\<lparr>gbuf = \<lparr>command_data = [0x09, 0x01, 0x03, 0x00, 0x63, 0x00, 0x01, 0x05, 0x10, 0x00],
               text_data = [], command_data_offset = 1, text_data_offset = 0\<rparr>,
      names = \<lparr>cache = Map.empty, last_saved_name = [], last_saved_name_offset = None\<rparr>,
      out = []\<rparr>"
              "[0x09]" "0x01" "0x03" "0x00" "0x63" "0x00" "0x01" "[(0x05, 0x10, 0x00)]" "[]" 0 7]
  by (simp add: encode_cases_def case_matches_def case_target_def)

subsection \<open>Unknown and unhandled opcodes\<close>

text \<open>The byte under the cursor, read as an opcode.\<close>

definition opcode_at_cursor :: "dstate \<Rightarrow> int" where
  "opcode_at_cursor st = uint (command_data (gbuf st) ! command_data_offset (gbuf st))"

text \<open>
  What an unknown opcode leaves behind in the normal dispatcher: the cursor one byte
  further, and three lines of output: the opcode being dispatched, the report of
  \<open>_handle_unknown_opcode\<close> with the value and the offset, and the exception printed by
  the \<open>except\<close> clause of \<open>process_single_command\<close>.
\<close>

definition after_unknown_opcode :: "dstate \<Rightarrow> dstate" where
  "after_unknown_opcode st =
     st\<lparr>gbuf := (gbuf st)\<lparr>command_data_offset := command_data_offset (gbuf st) + 1\<rparr>,
        out := out st
          @ [Ev_Info ''Normal opcode at offset''
               [int (command_data_offset (gbuf st)), opcode_at_cursor st],
             Ev_UnknownOpcode (opcode_at_cursor st) (command_data_offset (gbuf st)),
             Ev_Error ''Error processing single command''
               (NormalOpcodeDisassemblerException_Unknown (opcode_at_cursor st)
                  (command_data_offset (gbuf st)))]\<rparr>"

text \<open>What an unhandled opcode leaves behind in the outer dispatcher.\<close>

definition after_unhandled_opcode :: "dstate \<Rightarrow> dstate" where
  "after_unhandled_opcode st =
     st\<lparr>gbuf := (gbuf st)\<lparr>command_data_offset := command_data_offset (gbuf st) + 1\<rparr>,
        out := out st
          @ [Ev_Info ''Processing opcode''
               [int (command_data_offset (gbuf st)), opcode_at_cursor st],
             Ev_UnhandledOpcode (opcode_at_cursor st) (command_data_offset (gbuf st))]\<rparr>"

lemma handle_unknown_opcode_raises:
  "handle_unknown_opcode opcode current_offset st
     = (Raise (NormalOpcodeDisassemblerException_Unknown opcode current_offset),
        st\<lparr>out := out st @ [Ev_UnknownOpcode opcode current_offset]\<rparr>)"
  by (simp add: handle_unknown_opcode_def seq_def emit_def raise_def)

lemma process_single_command_unknown:
  assumes "command_data_offset (gbuf st) < length (command_data (gbuf st))"
      and "opcode_handlers (opcode_at_cursor st) = None"
  shows "process_single_command cs st = (Ok (- 1), after_unknown_opcode st)"
  using assms
  by (simp add: process_single_command_def process_single_command_body_def catch_def
        get_next_byte_def Let_def seq_def emit_def ret_def handle_unknown_opcode_raises
        after_unknown_opcode_def opcode_at_cursor_def)


lemma process_opcode_unhandled:
  assumes "0 \<le> opcode" and "opcode \<le> 0x0B"
      and "opcode \<notin> {0x00, 0x04, 0x05, 0x08, 0x09, 0x0A, 0x0B}"
  shows "process_opcode cs opcode current_offset st
           = (Ok (), st\<lparr>out := out st @ [Ev_UnhandledOpcode opcode current_offset]\<rparr>)"
  using assms by (simp add: process_opcode_def process_basic_opcode_def emit_def)

lemma process_sys_calls_unhandled:
  assumes "command_data_offset (gbuf st) < length (command_data (gbuf st))"
      and "opcode_at_cursor st \<le> 0x0B"
      and "opcode_at_cursor st \<notin> {0x00, 0x04, 0x05, 0x08, 0x09, 0x0A, 0x0B}"
  shows "process_sys_calls_loop cs st = process_sys_calls_loop cs (after_unhandled_opcode st)"
proof -
  have nn: "0 \<le> opcode_at_cursor st" by (simp add: opcode_at_cursor_def)
  let ?st1 = "st\<lparr>gbuf := (gbuf st)\<lparr>command_data_offset := command_data_offset (gbuf st) + 1\<rparr>,
                 out := out st @ [Ev_Info ''Processing opcode''
                    [int (command_data_offset (gbuf st)), opcode_at_cursor st]]\<rparr>"
  have "process_opcode cs (opcode_at_cursor st) (command_data_offset (gbuf st)) ?st1
          = (Ok (), after_unhandled_opcode st)"
    using process_opcode_unhandled [OF nn assms(2,3), of cs "command_data_offset (gbuf st)" ?st1]
    by (simp add: after_unhandled_opcode_def)
  then show ?thesis
    using assms(1)
    by (subst process_sys_calls_loop.simps)
       (simp add: sys_get_next_byte_def Let_def seq_def emit_def opcode_at_cursor_def)
qed



text \<open>
  The outer handler of opcode \<open>0x00\<close> calls \<open>process_single_command\<close> and drops its
  status, so the loop of \<open>process_sys_calls\<close> goes on after an unknown normal opcode.
\<close>

lemma outer_loop_continues_after_unknown_normal_opcode:
  assumes "command_data (gbuf st) = pre @ [0x00, b] @ post"
      and "command_data_offset (gbuf st) = length pre"
      and "opcode_handlers (uint b) = None"
  shows "process_sys_calls_loop cs st
           = process_sys_calls_loop cs
               (st\<lparr>gbuf := (gbuf st)\<lparr>command_data_offset := length pre + 2\<rparr>,
                   out := out st
                     @ [Ev_Info ''Processing opcode'' [int (length pre), 0],
                        Ev_Info ''[Sys Call] Executing main Interpreter'' [int (length pre)],
                        Ev_Info ''Normal opcode at offset'' [int (length pre + 1), uint b],
                        Ev_UnknownOpcode (uint b) (length pre + 1),
                        Ev_Error ''Error processing single command''
                          (NormalOpcodeDisassemblerException_Unknown (uint b) (length pre + 1))]\<rparr>)"
proof -
  let ?st1 = "st\<lparr>gbuf := (gbuf st)\<lparr>command_data_offset := length pre + 1\<rparr>,
                 out := out st @ [Ev_Info ''Processing opcode'' [int (length pre), 0],
                   Ev_Info ''[Sys Call] Executing main Interpreter'' [int (length pre)]]\<rparr>"
  have o: "opcode_at_cursor ?st1 = uint b"
    using assms(1) by (simp add: opcode_at_cursor_def nth_append)
  have lt: "command_data_offset (gbuf ?st1) < length (command_data (gbuf ?st1))"
    using assms(1) by simp
  have inner: "process_single_command cs ?st1 = (Ok (- 1), after_unknown_opcode ?st1)"
    using process_single_command_unknown [OF lt, of cs] o assms(3) by simp
  show ?thesis
    using assms(1,2) inner o
    by (subst process_sys_calls_loop.simps)
       (simp add: sys_get_next_byte_def Let_def seq_def emit_def ret_def process_opcode_def
          process_basic_opcode_def handle_basic_operation_def main_interpreter_def
          after_unknown_opcode_def nth_append)
qed

end
